theory Spec2Isabelle
  imports Complex_Main
begin

section \<open>Text\<close>

text \<open>
  Python strings are modelled as \<^typ>\<open>string\<close>, one \<^typ>\<open>char\<close> per code point, so the
  model covers the text whose code points are below 256. The functions of this section are
  the methods of \<^verbatim>\<open>str\<close> that \<^verbatim>\<open>main.py\<close> calls.
\<close>

definition isspace :: "char \<Rightarrow> bool" where
  \<comment> \<open>\<^verbatim>\<open>str.isspace\<close> on one code point: TAB, LF, VT, FF, CR, FS, GS, RS, US, SPACE, NEL, NBSP.\<close>
  "isspace c =
     (let n = (of_char c :: nat)
      in (9 \<le> n \<and> n \<le> 13) \<or> (28 \<le> n \<and> n \<le> 32) \<or> n = 133 \<or> n = 160)"

definition strip :: "string \<Rightarrow> string" where
  \<comment> \<open>\<^verbatim>\<open>s.strip()\<close>: leading and trailing white space removed.\<close>
  "strip s = rev (dropWhile isspace (rev (dropWhile isspace s)))"

definition lower_char :: "char \<Rightarrow> char" where
  \<comment> \<open>\<^verbatim>\<open>c.lower()\<close>: the upper-case letters are A..Z and the Latin-1 block 192..222 without
      the multiplication sign 215; each has its lower-case letter 32 code points above.\<close>
  "lower_char c =
     (let n = (of_char c :: nat)
      in if (65 \<le> n \<and> n \<le> 90) \<or> (192 \<le> n \<and> n \<le> 222 \<and> n \<noteq> 215)
         then char_of (n + 32) else c)"

definition lower :: "string \<Rightarrow> string" where
  "lower s = map lower_char s"

definition startswith :: "string \<Rightarrow> string \<Rightarrow> bool" where
  "startswith s p = (take (length p) s = p)"

definition endswith :: "string \<Rightarrow> string \<Rightarrow> bool" where
  "endswith s p = (length p \<le> length s \<and> drop (length s - length p) s = p)"

definition ljust :: "nat \<Rightarrow> string \<Rightarrow> string" where
  \<comment> \<open>\<^verbatim>\<open>s.ljust(w)\<close>: padded with spaces on the right up to width \<open>w\<close>, never cut.\<close>
  "ljust w s = s @ replicate (w - length s) (CHR '' '')"

definition rjust :: "nat \<Rightarrow> string \<Rightarrow> string" where
  "rjust w s = replicate (w - length s) (CHR '' '') @ s"

definition digit :: "nat \<Rightarrow> char" where
  "digit d = ''0123456789'' ! d"

fun str_nat :: "nat \<Rightarrow> string" where
  "str_nat n = (if n < 10 then [digit n] else str_nat (n div 10) @ [digit (n mod 10)])"

definition str_int :: "int \<Rightarrow> string" where
  "str_int i = (if i < 0 then CHR ''-'' # str_nat (nat (- i)) else str_nat (nat i))"

definition str_opt :: "string option \<Rightarrow> string" where
  \<comment> \<open>An optional string inside an f-string: \<^verbatim>\<open>None\<close> prints as the word None.\<close>
  "str_opt v = (case v of None \<Rightarrow> ''None'' | Some s \<Rightarrow> s)"

definition nl :: string where
  "nl = [CHR 0x0A]"

definition tab :: string where
  "tab = [CHR 0x09]"

fun split_on :: "char \<Rightarrow> string \<Rightarrow> string list" where
  \<comment> \<open>\<^verbatim>\<open>s.split(sep)\<close> for a one-character separator: always at least one field.\<close>
  "split_on sep [] = [[]]"
| "split_on sep (c # cs) =
     (if c = sep then [] # split_on sep cs
      else (case split_on sep cs of f # fs \<Rightarrow> (c # f) # fs | [] \<Rightarrow> [[c]]))"

fun join_with :: "string \<Rightarrow> string list \<Rightarrow> string" where
  \<comment> \<open>\<^verbatim>\<open>sep.join(xs)\<close>\<close>
  "join_with sep [] = []"
| "join_with sep [x] = x"
| "join_with sep (x # y # ys) = x @ sep @ join_with sep (y # ys)"

section \<open>Paths (\<^verbatim>\<open>posixpath\<close>)\<close>

definition isabs :: "string \<Rightarrow> bool" where
  "isabs p = startswith p ''/''"

definition path_join :: "string \<Rightarrow> string \<Rightarrow> string" where
  \<comment> \<open>\<^verbatim>\<open>os.path.join(a, b)\<close>: an absolute \<open>b\<close> discards \<open>a\<close>.\<close>
  "path_join a b =
     (if startswith b ''/'' then b
      else if a = [] \<or> endswith a ''/'' then a @ b
      else a @ ''/'' @ b)"

definition basename :: "string \<Rightarrow> string" where
  \<comment> \<open>\<^verbatim>\<open>os.path.basename(p)\<close>: what follows the last slash.\<close>
  "basename p = rev (takeWhile (\<lambda>c. c \<noteq> CHR ''/'') (rev p))"

definition initial_slashes :: "string \<Rightarrow> string" where
  \<comment> \<open>The root of \<^verbatim>\<open>splitroot\<close>: exactly two leading slashes are kept, three or more are one.\<close>
  "initial_slashes p =
     (if \<not> startswith p ''/'' then []
      else if startswith p ''//'' \<and> \<not> startswith p ''///'' then ''//''
      else ''/'')"

fun norm_comps :: "bool \<Rightarrow> string list \<Rightarrow> string list \<Rightarrow> string list" where
  \<comment> \<open>The loop of \<^verbatim>\<open>normpath\<close> over the components; \<open>new\<close> is \<^verbatim>\<open>new_comps\<close>.\<close>
  "norm_comps rooted new [] = new"
| "norm_comps rooted new (cmp # comps) =
     (if cmp = [] \<or> cmp = ''.'' then norm_comps rooted new comps
      else if cmp \<noteq> ''..'' \<or> (\<not> rooted \<and> new = []) \<or> (new \<noteq> [] \<and> last new = ''..'')
        then norm_comps rooted (new @ [cmp]) comps
      else if new \<noteq> [] then norm_comps rooted (butlast new) comps
      else norm_comps rooted new comps)"

definition normpath :: "string \<Rightarrow> string" where
  "normpath p =
     (if p = [] then ''.''
      else let rt = initial_slashes p;
               comps = norm_comps (rt \<noteq> []) [] (split_on (CHR ''/'') (dropWhile (\<lambda>c. c = CHR ''/'') p));
               r = rt @ join_with ''/'' comps
           in if r = [] then ''.'' else r)"

definition abspath :: "string \<Rightarrow> string \<Rightarrow> string" where
  \<comment> \<open>\<^verbatim>\<open>os.path.abspath(p)\<close>; \<open>cwd\<close> is the directory of the process, read for a relative \<open>p\<close> only.\<close>
  "abspath cwd p = normpath (if isabs p then p else path_join cwd p)"

section \<open>Word splitting (\<^verbatim>\<open>shlex.split\<close>)\<close>

datatype exn =
    ValueError string
  | TypeError string
  | FileNotFoundError string
  | NotADirectoryError string
  | FileExistsError string
  | PermissionError string
  | IsADirectoryError string
  | OverflowError string
  | HostError string

definition quoted :: "string \<Rightarrow> string" where
  \<comment> \<open>How an error message shows a path: between single quotes (the \<^verbatim>\<open>repr\<close> of a string with
      no quote, backslash or control character in it).\<close>
  "quoted p = [CHR 0x27] @ p @ [CHR 0x27]"

fun str_exn :: "exn \<Rightarrow> string" where
  \<comment> \<open>\<^verbatim>\<open>str(e)\<close>\<close>
  "str_exn (ValueError m) = m"
| "str_exn (TypeError m) = m"
| "str_exn (FileNotFoundError p) = ''[Errno 2] No such file or directory: '' @ quoted p"
| "str_exn (NotADirectoryError p) = ''[Errno 20] Not a directory: '' @ quoted p"
| "str_exn (FileExistsError p) = ''[Errno 17] File exists: '' @ quoted p"
| "str_exn (PermissionError p) = ''[Errno 13] Permission denied: '' @ quoted p"
| "str_exn (IsADirectoryError p) = ''[Errno 21] Is a directory: '' @ quoted p"
| "str_exn (OverflowError m) = m"
| "str_exn (HostError m) = m"

datatype lex_state =
    InSpace
  | InWord
  | InQuote char
  | InEscape lex_state

definition shlex_whitespace :: "char \<Rightarrow> bool" where
  "shlex_whitespace c = (c \<in> set [CHR '' '', CHR 0x09, CHR 0x0D, CHR 0x0A])"

definition shlex_quote :: "char \<Rightarrow> bool" where
  "shlex_quote c = (c = CHR 0x27 \<or> c = CHR 0x22)"

definition shlex_escape :: "char \<Rightarrow> bool" where
  "shlex_escape c = (c = CHR 0x5C)"

fun read_tokens :: "lex_state \<Rightarrow> string \<Rightarrow> string \<Rightarrow> exn + string list" where
  \<comment> \<open>\<^verbatim>\<open>shlex.read_token\<close> in POSIX mode with \<^verbatim>\<open>whitespace_split\<close> and no comment character,
      run to the end of the input: the state, the token being read, the rest of the input.\<close>
  "read_tokens InSpace tok [] = Inr []"
| "read_tokens InWord tok [] = Inr [tok]"
| "read_tokens (InQuote q) tok [] = Inl (ValueError ''No closing quotation'')"
| "read_tokens (InEscape st) tok [] = Inl (ValueError ''No escaped character'')"
| "read_tokens InSpace tok (c # cs) =
     (if shlex_whitespace c then read_tokens InSpace tok cs
      else if shlex_escape c then read_tokens (InEscape InWord) tok cs
      else if shlex_quote c then read_tokens (InQuote c) tok cs
      else read_tokens InWord [c] cs)"
| "read_tokens InWord tok (c # cs) =
     (if shlex_whitespace c
      then (case read_tokens InSpace [] cs of Inl e \<Rightarrow> Inl e | Inr ts \<Rightarrow> Inr (tok # ts))
      else if shlex_quote c then read_tokens (InQuote c) tok cs
      else if shlex_escape c then read_tokens (InEscape InWord) tok cs
      else read_tokens InWord (tok @ [c]) cs)"
| "read_tokens (InQuote q) tok (c # cs) =
     (if c = q then read_tokens InWord tok cs
      else if shlex_escape c \<and> q = CHR 0x22 then read_tokens (InEscape (InQuote q)) tok cs
      else read_tokens (InQuote q) (tok @ [c]) cs)"
| "read_tokens (InEscape st) tok (c # cs) =
     (case st of
        InQuote q \<Rightarrow>
          (if \<not> shlex_escape c \<and> c \<noteq> q
           then read_tokens st (tok @ [CHR 0x5C] @ [c]) cs
           else read_tokens st (tok @ [c]) cs)
      | _ \<Rightarrow> read_tokens st (tok @ [c]) cs)"

definition shlex_split :: "string \<Rightarrow> exn + string list" where
  "shlex_split s = read_tokens InSpace [] s"

section \<open>The host: file system, processes, subprocesses\<close>

text \<open>
  The file system is a tree. A directory keeps its entries in the order in which
  \<^verbatim>\<open>os.listdir\<close> reports them. A symbolic link whose target exists stands for its target;
  \<open>Broken\<close> is a link whose target is missing; \<open>Special\<close> is a FIFO, socket or device.
  The three permission bits of \<open>meta\<close> are what the operating system grants the user of
  the session, and what \<^verbatim>\<open>os.access\<close> therefore answers. Paths contain no NUL character.
\<close>

record meta =
  st_size :: nat
  st_mtime :: rat
  r_ok :: bool
  w_ok :: bool
  x_ok :: bool

datatype node =
    File meta
  | Dir meta "(string \<times> node) list"
  | Special meta
  | Broken

fun get :: "node \<Rightarrow> string list \<Rightarrow> node option" where
  \<comment> \<open>The node at a list of names below \<open>n\<close>; every directory on the way must be searchable.\<close>
  "get n [] = Some n"
| "get n (c # cs) =
     (case n of
        Dir m es \<Rightarrow>
          (if x_ok m then (case map_of es c of None \<Rightarrow> None | Some ch \<Rightarrow> get ch cs) else None)
      | _ \<Rightarrow> None)"

fun walk :: "node \<Rightarrow> string \<Rightarrow> string list \<Rightarrow> string list \<Rightarrow> exn + string list" where
  \<comment> \<open>Path resolution: from the place \<open>cur\<close>, follow the components of the path \<open>p\<close>.\<close>
  "walk fs p cur [] = Inr cur"
| "walk fs p cur (c # cs) =
     (case get fs cur of
        Some (Dir m es) \<Rightarrow>
          (if \<not> x_ok m then Inl (PermissionError p)
           else if c = [] \<or> c = ''.'' then walk fs p cur cs
           else if c = ''..'' then walk fs p (butlast cur) cs
           else walk fs p (cur @ [c]) cs)
      | Some (File m) \<Rightarrow> Inl (NotADirectoryError p)
      | Some (Special m) \<Rightarrow> Inl (NotADirectoryError p)
      | Some Broken \<Rightarrow> Inl (FileNotFoundError p)
      | None \<Rightarrow> Inl (FileNotFoundError p))"

definition components :: "string \<Rightarrow> string \<Rightarrow> string list" where
  \<comment> \<open>The components of \<open>p\<close>, counted from the root; a relative \<open>p\<close> starts at \<open>cwd\<close>.\<close>
  "components cwd p = split_on (CHR ''/'') (if isabs p then p else path_join cwd p)"

definition os_stat :: "node \<Rightarrow> string \<Rightarrow> string \<Rightarrow> exn + node" where
  \<comment> \<open>\<^verbatim>\<open>os.stat(p)\<close>: the node that \<open>p\<close> names, with its kind and \<open>meta\<close>.\<close>
  "os_stat fs cwd p =
     (if p = [] then Inl (FileNotFoundError p)
      else case walk fs p [] (components cwd p) of
             Inl e \<Rightarrow> Inl e
           | Inr loc \<Rightarrow>
               (case get fs loc of
                  None \<Rightarrow> Inl (FileNotFoundError p)
                | Some Broken \<Rightarrow> Inl (FileNotFoundError p)
                | Some n \<Rightarrow> Inr n))"

definition exists_path :: "node \<Rightarrow> string \<Rightarrow> string \<Rightarrow> bool" where
  \<comment> \<open>\<^verbatim>\<open>os.path.exists\<close>\<close>
  "exists_path fs cwd p = (case os_stat fs cwd p of Inr n \<Rightarrow> True | Inl e \<Rightarrow> False)"

definition isdir :: "node \<Rightarrow> string \<Rightarrow> string \<Rightarrow> bool" where
  \<comment> \<open>\<^verbatim>\<open>os.path.isdir\<close>\<close>
  "isdir fs cwd p = (case os_stat fs cwd p of Inr (Dir m es) \<Rightarrow> True | _ \<Rightarrow> False)"

definition isfile :: "node \<Rightarrow> string \<Rightarrow> string \<Rightarrow> bool" where
  \<comment> \<open>\<^verbatim>\<open>os.path.isfile\<close>\<close>
  "isfile fs cwd p = (case os_stat fs cwd p of Inr (File m) \<Rightarrow> True | _ \<Rightarrow> False)"

fun meta_of :: "node \<Rightarrow> meta option" where
  "meta_of (File m) = Some m"
| "meta_of (Dir m es) = Some m"
| "meta_of (Special m) = Some m"
| "meta_of Broken = None"

definition os_access :: "(meta \<Rightarrow> bool) \<Rightarrow> node \<Rightarrow> string \<Rightarrow> string \<Rightarrow> bool" where
  \<comment> \<open>\<^verbatim>\<open>os.access(p, mode)\<close>, the mode given as the bit it asks for.\<close>
  "os_access perm fs cwd p =
     (case os_stat fs cwd p of
        Inl e \<Rightarrow> False
      | Inr n \<Rightarrow> (case meta_of n of None \<Rightarrow> False | Some m \<Rightarrow> perm m))"

definition listdir :: "node \<Rightarrow> string \<Rightarrow> string \<Rightarrow> exn + string list" where
  \<comment> \<open>\<^verbatim>\<open>os.listdir(p)\<close>: the names in the directory, in the order of the host.\<close>
  "listdir fs cwd p =
     (case os_stat fs cwd p of
        Inl e \<Rightarrow> Inl e
      | Inr (Dir m es) \<Rightarrow> if r_ok m then Inr (map fst es) else Inl (PermissionError p)
      | Inr n \<Rightarrow> Inl (NotADirectoryError p))"

fun upd :: "string \<Rightarrow> node \<Rightarrow> (string \<times> node) list \<Rightarrow> (string \<times> node) list" where
  "upd c v [] = []"
| "upd c v ((k, w) # es) = (if k = c then (k, v) # es else (k, w) # upd c v es)"

fun put :: "node \<Rightarrow> string list \<Rightarrow> node \<Rightarrow> node" where
  \<comment> \<open>The tree with \<open>new\<close> at the given place: replaced there, or added as the last entry of
      its parent directory.\<close>
  "put n [] new = new"
| "put n (c # cs) new =
     (case n of
        Dir m es \<Rightarrow>
          (case map_of es c of
             None \<Rightarrow> if cs = [] then Dir m (es @ [(c, new)]) else n
           | Some ch \<Rightarrow> Dir m (upd c (put ch cs new) es))
      | _ \<Rightarrow> n)"

definition upto :: "string \<Rightarrow> nat \<Rightarrow> string" where
  \<comment> \<open>The path \<open>p\<close> without its last \<open>r\<close> components.\<close>
  "upto p r =
     join_with ''/'' (take (length (split_on (CHR ''/'') p) - r) (split_on (CHR ''/'') p))"

fun mkdirs :: "meta \<Rightarrow> string \<Rightarrow> node \<Rightarrow> string list \<Rightarrow> string list \<Rightarrow> exn option \<times> node" where
  \<comment> \<open>The documented behaviour of \<^verbatim>\<open>os.makedirs(p, exist_ok=True)\<close>: from \<open>cur\<close>, every
      component that is missing is created as a directory with the meta data \<open>fresh\<close>, which
      needs a writable parent; a component that exists and is no directory is an error. The
      directories made before an error stay. The error of \<^verbatim>\<open>mkdir\<close> names the path up to the
      component at which it was raised; at the end of the path it names the whole path.\<close>
  "mkdirs fresh p fs cur [] =
     (case get fs cur of
        Some (Dir m es) \<Rightarrow> (None, fs)
      | _ \<Rightarrow> (Some (FileExistsError p), fs))"
| "mkdirs fresh p fs cur (c # cs) =
     (case get fs cur of
        Some (Dir m es) \<Rightarrow>
          (if \<not> x_ok m then (Some (PermissionError (upto p (length cs))), fs)
           else if c = [] \<or> c = ''.'' then mkdirs fresh p fs cur cs
           else if c = ''..'' then mkdirs fresh p fs (butlast cur) cs
           else (case map_of es c of
                   Some ch \<Rightarrow> mkdirs fresh p fs (cur @ [c]) cs
                 | None \<Rightarrow>
                     if w_ok m then mkdirs fresh p (put fs (cur @ [c]) (Dir fresh [])) (cur @ [c]) cs
                     else (Some (PermissionError (upto p (length cs))), fs)))
      | Some (File m) \<Rightarrow> (Some (NotADirectoryError (upto p (length cs))), fs)
      | Some (Special m) \<Rightarrow> (Some (NotADirectoryError (upto p (length cs))), fs)
      | Some Broken \<Rightarrow> (Some (FileNotFoundError (upto p (length cs))), fs)
      | None \<Rightarrow> (Some (FileNotFoundError (upto p (length cs))), fs))"

definition makedirs :: "meta \<Rightarrow> node \<Rightarrow> string \<Rightarrow> string \<Rightarrow> exn option \<times> node" where
  "makedirs fresh fs cwd p =
     (if p = [] then (Some (FileNotFoundError p), fs)
      else mkdirs fresh p fs [] (components cwd p))"

record proc =
  pid :: int
  name :: "string option"
  username :: "string option"
  cpu_percent :: "rat option"
  memory_info :: "nat option"

record usage =
  total_bytes :: nat
  used_bytes :: nat
  percent_used :: rat

record stats =
  cpu_count :: "nat option"
  percpu :: "rat list"
  virtual_memory :: usage
  disk_usage :: usage

text \<open>
  What the session asks of its host, beyond the file system. A number that Python holds as
  a float is a rational here, and the host prints it (\<open>format_1f\<close> is the format
  \<^verbatim>\<open>:.1f\<close>, \<open>str_float\<close> is \<^verbatim>\<open>str\<close>). \<open>strftime\<close> is
  \<^verbatim>\<open>datetime.fromtimestamp(t).strftime('%Y-%m-%d %H:%M')\<close>, in the time zone of the host;
  \<^verbatim>\<open>fromtimestamp\<close> raises for a time stamp that the calendar of the host does not hold.
  The operations of \<^verbatim>\<open>shutil\<close> and the subprocess are given by
  the host: each takes the file system and answers with the file system it leaves.
\<close>

record host =
  getcwd :: string
  expanduser_home :: string
  getlogin :: "exn + string"
  fresh_dir :: meta
  strftime :: "rat \<Rightarrow> exn + string"
  format_1f :: "rat \<Rightarrow> string"
  str_float :: "rat \<Rightarrow> string"
  popen :: "node \<Rightarrow> string \<Rightarrow> string \<Rightarrow> exn + (string \<times> string \<times> node)"
  rmtree :: "node \<Rightarrow> string \<Rightarrow> exn option \<times> node"
  os_remove :: "node \<Rightarrow> string \<Rightarrow> exn option \<times> node"
  copytree :: "node \<Rightarrow> string \<Rightarrow> string \<Rightarrow> exn option \<times> node"
  copy2 :: "node \<Rightarrow> string \<Rightarrow> string \<Rightarrow> exn option \<times> node"
  move :: "node \<Rightarrow> string \<Rightarrow> string \<Rightarrow> exn option \<times> node"
  process_iter :: "exn + proc list"
  monitor_sample :: "exn + (rat \<times> rat \<times> rat)"
  system_stats :: "exn + stats"

section \<open>The terminal widget\<close>

text \<open>
  The fields of \<^verbatim>\<open>TerminalWidget\<close> that the commands read and write. \<open>output_area\<close> is
  the list of the texts appended to the output pane, \<open>quit_called\<close> records
  \<^verbatim>\<open>QApplication.quit()\<close>, and \<open>disk\<close> is the file system of the host, carried with the
  session because the commands change it.
\<close>

record terminal =
  current_dir :: string
  command_history :: "string list"
  history_index :: int
  output_area :: "string list"
  input_field :: string
  prompt_label :: string
  monitor_label :: string
  quit_called :: bool
  disk :: node

definition append_out :: "terminal \<Rightarrow> string \<Rightarrow> terminal" where
  \<comment> \<open>\<^verbatim>\<open>self.output_area.append(text)\<close>\<close>
  "append_out s t = s\<lparr>output_area := output_area s @ [t]\<rparr>"

definition report :: "terminal \<Rightarrow> exn \<Rightarrow> terminal" where
  \<comment> \<open>The handler \<^verbatim>\<open>except Exception as e\<close> of the built-ins.\<close>
  "report s e = append_out s (''Error: '' @ str_exn e)"

definition welcome_msg :: "string \<Rightarrow> string" where
  "welcome_msg dir =
     nl @ ''Python Terminal Emulator'' @ nl @
     ''Type 'help' for available commands'' @ nl @
     ''Current directory: '' @ dir @ nl"

definition init :: "host \<Rightarrow> node \<Rightarrow> exn + terminal" where
  \<comment> \<open>\<^verbatim>\<open>__init__\<close>, \<^verbatim>\<open>setup_ui\<close> and \<^verbatim>\<open>print_welcome\<close>; \<^verbatim>\<open>os.getlogin()\<close> is not guarded there.\<close>
  "init h fs =
     (case getlogin h of
        Inl e \<Rightarrow> Inl e
      | Inr user \<Rightarrow>
          Inr \<lparr>current_dir = getcwd h,
               command_history = [],
               history_index = - 1,
               output_area = [welcome_msg (getcwd h)],
               input_field = [],
               prompt_label = user @ ''@pyterm:$ '',
               monitor_label = [],
               quit_called = False,
               disk = fs\<rparr>)"

definition update_prompt :: "host \<Rightarrow> terminal \<Rightarrow> exn + terminal" where
  "update_prompt h s =
     (let dir_name = basename (current_dir s);
          dir_name = (if dir_name = [] then ''/'' else dir_name)
      in case getlogin h of
           Inl e \<Rightarrow> Inl e
         | Inr user \<Rightarrow> Inr (s\<lparr>prompt_label := user @ ''@pyterm:'' @ dir_name @ ''$ ''\<rparr>))"

definition change_directory :: "host \<Rightarrow> terminal \<Rightarrow> string \<Rightarrow> terminal" where
  "change_directory h s path0 =
     (let path = (if path0 = [] then expanduser_home h else path0);
          new_dir = abspath (getcwd h) (path_join (current_dir s) path)
      in if isdir (disk s) (getcwd h) new_dir
         then (let s1 = s\<lparr>current_dir := new_dir\<rparr>
               in case update_prompt h s1 of Inl e \<Rightarrow> report s1 e | Inr s2 \<Rightarrow> s2)
         else append_out s (''Error: Directory not found: '' @ path))"

definition ls_args :: "string \<Rightarrow> string list \<Rightarrow> bool \<times> bool \<times> string" where
  \<comment> \<open>The flags and the path of \<^verbatim>\<open>list_files\<close>: (\<^verbatim>\<open>show_all\<close>, \<^verbatim>\<open>long_format\<close>, \<^verbatim>\<open>path\<close>).\<close>
  "ls_args cur parts =
     (case parts of
        v # a # rest \<Rightarrow>
          if startswith a ''-''
          then (CHR ''a'' \<in> set a, CHR ''l'' \<in> set a,
                (case rest of [] \<Rightarrow> cur | b # others \<Rightarrow> path_join cur b))
          else (False, False, path_join cur a)
      | _ \<Rightarrow> (False, False, cur))"

definition long_line :: "host \<Rightarrow> node \<Rightarrow> string \<Rightarrow> string \<Rightarrow> exn + string" where
  \<comment> \<open>One line of the long format for the path \<open>full\<close>, shown under the name \<open>f\<close>:
      \<^verbatim>\<open>os.stat\<close>, then the time stamp, then the line; the first two may raise.\<close>
  "long_line h fs full f =
     (case os_stat fs (getcwd h) full of
        Inl e \<Rightarrow> Inl e
      | Inr n \<Rightarrow>
          (case meta_of n of
             None \<Rightarrow> Inl (FileNotFoundError full)
           | Some m \<Rightarrow>
               (case strftime h (st_mtime m) of
                  Inl e \<Rightarrow> Inl e
                | Inr mtime \<Rightarrow>
                    Inr ((if isfile fs (getcwd h) full then ''-'' else ''d'') @
                         (if os_access r_ok fs (getcwd h) full then ''r'' else ''-'') @
                         (if os_access w_ok fs (getcwd h) full then ''w'' else ''-'') @
                         (if os_access x_ok fs (getcwd h) full then ''x'' else ''-'') @
                         '' '' @ rjust 8 (str_nat (st_size m)) @
                         '' '' @ mtime @
                         '' '' @ f))))"

fun long_rows :: "host \<Rightarrow> node \<Rightarrow> string \<Rightarrow> string list \<Rightarrow> string list \<times> exn option" where
  \<comment> \<open>The loop of the long format: the lines appended, and the exception that ended it.\<close>
  "long_rows h fs path [] = ([], None)"
| "long_rows h fs path (f # files) =
     (case long_line h fs (path_join path f) f of
        Inl e \<Rightarrow> ([], Some e)
      | Inr l \<Rightarrow> (case long_rows h fs path files of (ls, r) \<Rightarrow> (l # ls, r)))"

fun pack :: "nat \<Rightarrow> nat \<Rightarrow> string list \<Rightarrow> string \<times> string list \<Rightarrow> string \<times> string list" where
  \<comment> \<open>One of the two loops of the short format, from the index \<open>i\<close> of \<^verbatim>\<open>enumerate\<close>: the
      line being filled and the lines appended so far.\<close>
  "pack per_line i [] (line, out) = (line, out)"
| "pack per_line i (cell # cells) (line, out) =
     (if (i + 1) mod per_line = 0
      then pack per_line (i + 1) cells ([], out @ [line @ cell])
      else pack per_line (i + 1) cells (line @ cell, out))"

definition short_dirs :: "node \<Rightarrow> string \<Rightarrow> string \<Rightarrow> string list \<Rightarrow> string list" where
  "short_dirs fs cwd path files = filter (\<lambda>f. isdir fs cwd (path_join path f)) files"

definition short_files :: "node \<Rightarrow> string \<Rightarrow> string \<Rightarrow> string list \<Rightarrow> string list" where
  "short_files fs cwd path files = filter (\<lambda>f. isfile fs cwd (path_join path f)) files"

definition column_width :: "string list \<Rightarrow> nat" where
  \<comment> \<open>\<^verbatim>\<open>max([len(f) for f in files + dirs] + [0]) + 2\<close>\<close>
  "column_width names = foldr max (map length names) 0 + 2"

definition short_rows :: "node \<Rightarrow> string \<Rightarrow> string \<Rightarrow> string list \<Rightarrow> string list" where
  "short_rows fs cwd path files0 =
     (let dirs = short_dirs fs cwd path files0;
          files = short_files fs cwd path files0;
          max_len = column_width (files @ dirs);
          per_line = max 1 (80 div max_len)
      in case pack per_line 0 (map (\<lambda>d. ljust max_len (d @ ''/'')) dirs) ([], []) of
           (line1, out1) \<Rightarrow>
             (case pack per_line 0 (map (ljust max_len) files) (line1, out1) of
                (line2, out2) \<Rightarrow> out2 @ (if line2 \<noteq> [] then [line2] else [])))"

definition visible :: "bool \<Rightarrow> string list \<Rightarrow> string list" where
  \<comment> \<open>\<^verbatim>\<open>if not show_all: files = [f for f in files if not f.startswith('.')]\<close>\<close>
  "visible show_all files = (if \<not> show_all then filter (\<lambda>f. \<not> startswith f ''.'') files else files)"

definition list_files :: "host \<Rightarrow> terminal \<Rightarrow> string \<Rightarrow> terminal" where
  "list_files h s command =
     (case shlex_split command of
        Inl e \<Rightarrow> report s e
      | Inr parts \<Rightarrow>
          (case ls_args (current_dir s) parts of
             (show_all, long_format, path) \<Rightarrow>
               if \<not> exists_path (disk s) (getcwd h) path
               then append_out s (''Error: Path not found: '' @ path)
               else if isfile (disk s) (getcwd h) path
               then (case long_line h (disk s) path (basename path) of
                       Inl e \<Rightarrow> report s e
                     | Inr l \<Rightarrow> append_out s l)
               else (case listdir (disk s) (getcwd h) path of
                       Inl e \<Rightarrow> report s e
                     | Inr names \<Rightarrow>
                         (let files = visible show_all names
                          in if long_format
                             then (case long_rows h (disk s) path files of
                                     (ls, r) \<Rightarrow>
                                       (let s1 = foldl append_out s ls
                                        in case r of None \<Rightarrow> s1 | Some e \<Rightarrow> report s1 e))
                             else foldl append_out s (short_rows (disk s) (getcwd h) path files)))))"

definition make_directory :: "host \<Rightarrow> terminal \<Rightarrow> string \<Rightarrow> terminal" where
  "make_directory h s path =
     (if path = [] then append_out s ''Error: mkdir requires a directory name''
      else case makedirs (fresh_dir h) (disk s) (getcwd h) (path_join (current_dir s) path) of
             (r, fs) \<Rightarrow>
               (let s1 = s\<lparr>disk := fs\<rparr>
                in case r of
                     Some e \<Rightarrow> report s1 e
                   | None \<Rightarrow> append_out s1 (''Created directory: '' @ path)))"

definition remove_file_or_dir :: "host \<Rightarrow> terminal \<Rightarrow> string \<Rightarrow> terminal" where
  "remove_file_or_dir h s path =
     (if path = [] then append_out s ''Error: rm requires a path''
      else let full_path = path_join (current_dir s) path
           in if isdir (disk s) (getcwd h) full_path
              then (case rmtree h (disk s) full_path of
                      (r, fs) \<Rightarrow>
                        (let s1 = s\<lparr>disk := fs\<rparr>
                         in case r of
                              Some e \<Rightarrow> report s1 e
                            | None \<Rightarrow> append_out s1 (''Removed directory: '' @ path)))
              else (case os_remove h (disk s) full_path of
                      (r, fs) \<Rightarrow>
                        (let s1 = s\<lparr>disk := fs\<rparr>
                         in case r of
                              Some e \<Rightarrow> report s1 e
                            | None \<Rightarrow> append_out s1 (''Removed file: '' @ path))))"

definition copy_file_or_dir :: "host \<Rightarrow> terminal \<Rightarrow> string \<Rightarrow> terminal" where
  "copy_file_or_dir h s command =
     (case shlex_split command of
        Inl e \<Rightarrow> report s e
      | Inr (v # a # b # rest) \<Rightarrow>
          (let src = path_join (current_dir s) a;
               dst = path_join (current_dir s) b
           in if isdir (disk s) (getcwd h) src
              then (case copytree h (disk s) src dst of
                      (r, fs) \<Rightarrow>
                        (let s1 = s\<lparr>disk := fs\<rparr>
                         in case r of
                              Some e \<Rightarrow> report s1 e
                            | None \<Rightarrow> append_out s1 (''Copied directory: '' @ a @ '' to '' @ b)))
              else (case copy2 h (disk s) src dst of
                      (r, fs) \<Rightarrow>
                        (let s1 = s\<lparr>disk := fs\<rparr>
                         in case r of
                              Some e \<Rightarrow> report s1 e
                            | None \<Rightarrow> append_out s1 (''Copied file: '' @ a @ '' to '' @ b))))
      | Inr parts \<Rightarrow> append_out s ''Error: cp requires source and destination'')"

definition move_file_or_dir :: "host \<Rightarrow> terminal \<Rightarrow> string \<Rightarrow> terminal" where
  "move_file_or_dir h s command =
     (case shlex_split command of
        Inl e \<Rightarrow> report s e
      | Inr (v # a # b # rest) \<Rightarrow>
          (case move h (disk s) (path_join (current_dir s) a) (path_join (current_dir s) b) of
             (r, fs) \<Rightarrow>
               (let s1 = s\<lparr>disk := fs\<rparr>
                in case r of
                     Some e \<Rightarrow> report s1 e
                   | None \<Rightarrow> append_out s1 (''Moved: '' @ a @ '' to '' @ b)))
      | Inr parts \<Rightarrow> append_out s ''Error: mv requires source and destination'')"

definition stream_blocks :: "string \<Rightarrow> string \<Rightarrow> string list" where
  \<comment> \<open>The blocks of a result for the captured \<^verbatim>\<open>stdout\<close> and \<^verbatim>\<open>stderr\<close>: the output block
      if there is output, then the error block if there is error text.\<close>
  "stream_blocks out err =
     (if out \<noteq> [] then [out] else []) @ (if err \<noteq> [] then [''Error: '' @ err] else [])"

definition execute_system_command :: "host \<Rightarrow> terminal \<Rightarrow> string \<Rightarrow> terminal" where
  "execute_system_command h s command =
     (case popen h (disk s) command (current_dir s) of
        Inl e \<Rightarrow> append_out s (''Error executing command: '' @ str_exn e)
      | Inr (out, err, fs) \<Rightarrow>
          (let s1 = s\<lparr>disk := fs\<rparr>;
               s2 = (if out \<noteq> [] then append_out s1 out else s1)
           in if err \<noteq> [] then append_out s2 (''Error: '' @ err) else s2))"

definition help_text :: string where
  "help_text =
     nl @ ''Available commands:'' @ nl @
     ''  cd [dir]         Change directory'' @ nl @
     ''  pwd              Show current directory'' @ nl @
     ''  ls [options]     List files (-a: show hidden, -l: long format)'' @ nl @
     ''  mkdir <dir>      Create directory'' @ nl @
     ''  rm <path>        Remove file or directory'' @ nl @
     ''  cp <src> <dst>   Copy file or directory'' @ nl @
     ''  mv <src> <dst>   Move file or directory'' @ nl @
     ''  clear            Clear screen'' @ nl @
     ''  history          Show command history'' @ nl @
     ''  ps               Show running processes'' @ nl @
     ''  top              Show system statistics'' @ nl @
     ''  exit             Exit terminal'' @ nl"

definition show_help :: "terminal \<Rightarrow> terminal" where
  "show_help s = append_out s help_text"

fun history_lines :: "nat \<Rightarrow> string list \<Rightarrow> string list" where
  \<comment> \<open>\<^verbatim>\<open>f"{i+1}: {cmd}"\<close> for the commands from index \<open>i\<close> on.\<close>
  "history_lines i [] = []"
| "history_lines i (cmd # cmds) = (str_nat (i + 1) @ '': '' @ cmd) # history_lines (i + 1) cmds"

definition show_history :: "terminal \<Rightarrow> terminal" where
  "show_history s = foldl append_out s (history_lines 0 (command_history s))"

definition cpu_key :: "proc \<Rightarrow> rat" where
  \<comment> \<open>\<^verbatim>\<open>lambda x: x['cpu_percent'] or 0\<close>\<close>
  "cpu_key p = (case cpu_percent p of None \<Rightarrow> 0 | Some c \<Rightarrow> c)"

definition sort_by_cpu :: "proc list \<Rightarrow> proc list" where
  \<comment> \<open>\<^verbatim>\<open>processes.sort(key=..., reverse=True)\<close>: descending, and stable (processes with the
      same key keep their order), which is the stable ascending sort of the reversed list,
      reversed.\<close>
  "sort_by_cpu ps = rev (sort_key cpu_key (rev ps))"

definition ps_header :: string where
  "ps_header = ''PID'' @ tab @ ''NAME'' @ tab @ ''USER'' @ tab @ ''CPU%'' @ tab @ ''MEMORY''"

definition mem_mb :: "proc \<Rightarrow> rat" where
  \<comment> \<open>\<^verbatim>\<open>p['memory_info'].rss / 1024 / 1024 if p['memory_info'] else 0\<close>\<close>
  "mem_mb p = (case memory_info p of None \<Rightarrow> 0 | Some rss \<Rightarrow> of_nat rss / 1024 / 1024)"

definition ps_line :: "host \<Rightarrow> proc \<Rightarrow> exn + string" where
  \<comment> \<open>One line of \<^verbatim>\<open>ps\<close>: the format \<^verbatim>\<open>:.1f\<close> of \<^verbatim>\<open>None\<close> raises \<^verbatim>\<open>TypeError\<close>.\<close>
  "ps_line h p =
     (case cpu_percent p of
        None \<Rightarrow> Inl (TypeError ''unsupported format string passed to NoneType.__format__'')
      | Some c \<Rightarrow>
          Inr (str_int (pid p) @ tab @ str_opt (name p) @ tab @ str_opt (username p) @ tab @
               format_1f h c @ tab @ format_1f h (mem_mb p) @ ''MB''))"

fun ps_rows :: "host \<Rightarrow> proc list \<Rightarrow> terminal \<Rightarrow> terminal" where
  \<comment> \<open>The loop over the first ten processes, inside the \<^verbatim>\<open>try\<close> of \<^verbatim>\<open>show_processes\<close>.\<close>
  "ps_rows h [] s = s"
| "ps_rows h (p # ps) s =
     (case ps_line h p of
        Inl e \<Rightarrow> report s e
      | Inr l \<Rightarrow> ps_rows h ps (append_out s l))"

definition show_processes :: "host \<Rightarrow> terminal \<Rightarrow> terminal" where
  "show_processes h s =
     (case process_iter h of
        Inl e \<Rightarrow> report s e
      | Inr processes \<Rightarrow>
          ps_rows h (take 10 (sort_by_cpu processes)) (append_out s ps_header))"

definition update_system_monitor :: "host \<Rightarrow> terminal \<Rightarrow> terminal" where
  "update_system_monitor h s =
     (case monitor_sample h of
        Inl e \<Rightarrow> s\<lparr>monitor_label := ''System monitor unavailable''\<rparr>
      | Inr (cpu, mem, dsk) \<Rightarrow>
          s\<lparr>monitor_label :=
              ''CPU: '' @ str_float h cpu @ ''% | Memory: '' @ str_float h mem @
              ''% | Disk: '' @ str_float h dsk @ ''%''\<rparr>)"

fun core_lines :: "host \<Rightarrow> nat \<Rightarrow> rat list \<Rightarrow> string list" where
  "core_lines h i [] = []"
| "core_lines h i (u # us) =
     (''  Core '' @ str_nat (i + 1) @ '': '' @ str_float h u @ ''%'') # core_lines h (i + 1) us"

definition gb :: "nat \<Rightarrow> rat" where
  "gb n = of_nat n / 1024 / 1024 / 1024"

definition show_system_stats :: "host \<Rightarrow> terminal \<Rightarrow> terminal" where
  "show_system_stats h s =
     (case system_stats h of
        Inl e \<Rightarrow> append_out s (''Error getting system stats: '' @ str_exn e)
      | Inr st \<Rightarrow>
          foldl append_out s
            ([''=== SYSTEM STATISTICS ==='',
              ''CPU Cores: '' @ (case cpu_count st of None \<Rightarrow> ''None'' | Some n \<Rightarrow> str_nat n),
              ''CPU Usage per core:''] @
             core_lines h 0 (percpu st) @
             [''Memory Total: '' @ format_1f h (gb (total_bytes (virtual_memory st))) @ '' GB'',
              ''Memory Used: '' @ format_1f h (gb (used_bytes (virtual_memory st))) @ '' GB ('' @
                str_float h (percent_used (virtual_memory st)) @ ''%)'',
              ''Disk Total: '' @ format_1f h (gb (total_bytes (disk_usage st))) @ '' GB'',
              ''Disk Used: '' @ format_1f h (gb (used_bytes (disk_usage st))) @ '' GB ('' @
                str_float h (percent_used (disk_usage st)) @ ''%)'']))"

section \<open>The dispatcher\<close>

datatype handler =
    Exit
  | Help
  | Cd string
  | Pwd
  | Ls string
  | Mkdir string
  | Rm string
  | Cp string
  | Mv string
  | Clear
  | History
  | Ps
  | Top
  | External string

definition dispatch :: "string \<Rightarrow> handler" where
  \<comment> \<open>The chain of \<^verbatim>\<open>if\<close>/\<^verbatim>\<open>elif\<close> of \<^verbatim>\<open>execute_command\<close>, in its order: the branch taken and
      the argument it passes on.\<close>
  "dispatch command =
     (if lower command = ''exit'' then Exit
      else if lower command = ''help'' then Help
      else if startswith command ''cd '' then Cd (drop 3 command)
      else if command = ''cd'' then Cd []
      else if command = ''pwd'' then Pwd
      else if command = ''ls'' \<or> startswith command ''ls '' then Ls command
      else if startswith command ''mkdir '' then Mkdir (drop 6 command)
      else if startswith command ''rm '' then Rm (drop 3 command)
      else if startswith command ''cp '' then Cp command
      else if startswith command ''mv '' then Mv command
      else if command = ''clear'' then Clear
      else if command = ''history'' then History
      else if command = ''ps'' then Ps
      else if command = ''top'' then Top
      else External command)"

fun run :: "host \<Rightarrow> handler \<Rightarrow> terminal \<Rightarrow> terminal" where
  "run h Exit s = s\<lparr>quit_called := True\<rparr>"
| "run h Help s = show_help s"
| "run h (Cd path) s = change_directory h s path"
| "run h Pwd s = append_out s (current_dir s)"
| "run h (Ls command) s = list_files h s command"
| "run h (Mkdir path) s = make_directory h s path"
| "run h (Rm path) s = remove_file_or_dir h s path"
| "run h (Cp command) s = copy_file_or_dir h s command"
| "run h (Mv command) s = move_file_or_dir h s command"
| "run h Clear s = s\<lparr>output_area := []\<rparr>"
| "run h History s = show_history s"
| "run h Ps s = show_processes h s"
| "run h Top s = show_system_stats h s"
| "run h (External command) s = execute_system_command h s command"

definition execute_command :: "host \<Rightarrow> terminal \<Rightarrow> terminal" where
  "execute_command h s =
     (let command = strip (input_field s);
          s0 = s\<lparr>input_field := []\<rparr>
      in if command = [] then s0
         else let s1 = s0\<lparr>command_history := command_history s0 @ [command]\<rparr>;
                  s2 = s1\<lparr>history_index := int (length (command_history s1))\<rparr>;
                  s3 = append_out s2 (''$ '' @ command)
              in run h (dispatch command) s3)"

definition submit :: "host \<Rightarrow> string \<Rightarrow> terminal \<Rightarrow> terminal" where
  \<comment> \<open>The user types \<open>text\<close> into the input line and presses Return.\<close>
  "submit h text s = execute_command h (s\<lparr>input_field := text\<rparr>)"

section \<open>History recall\<close>

datatype key = Key_Up | Key_Down | Key_Other

definition item :: "'a list \<Rightarrow> int \<Rightarrow> 'a option" where
  \<comment> \<open>\<^verbatim>\<open>xs[i]\<close>: a negative index counts from the end; \<open>None\<close> is \<^verbatim>\<open>IndexError\<close>.\<close>
  "item xs i =
     (let n = int (length xs);
          j = (if i < 0 then n + i else i)
      in if 0 \<le> j \<and> j < n then Some (xs ! nat j) else None)"

fun keyPressEvent :: "key \<Rightarrow> terminal \<Rightarrow> terminal option" where
  \<comment> \<open>\<open>None\<close>: an \<^verbatim>\<open>IndexError\<close> leaves the handler.\<close>
  "keyPressEvent Key_Up s =
     (if command_history s \<noteq> [] \<and> history_index s > 0
      then (let s1 = s\<lparr>history_index := history_index s - 1\<rparr>
            in case item (command_history s1) (history_index s1) of
                 None \<Rightarrow> None
               | Some t \<Rightarrow> Some (s1\<lparr>input_field := t\<rparr>))
      else Some s)"
| "keyPressEvent Key_Down s =
     (if command_history s \<noteq> [] \<and> history_index s < int (length (command_history s)) - 1
      then (let s1 = s\<lparr>history_index := history_index s + 1\<rparr>
            in case item (command_history s1) (history_index s1) of
                 None \<Rightarrow> None
               | Some t \<Rightarrow> Some (s1\<lparr>input_field := t\<rparr>))
      else Some (s\<lparr>history_index := int (length (command_history s)), input_field := []\<rparr>))"
| "keyPressEvent Key_Other s = Some s"

inductive reachable :: "terminal \<Rightarrow> bool" where
  \<comment> \<open>The states of a session: it starts, the user edits the input line, presses Return or
      a key, the monitor timer fires, and other programs change the file system.\<close>
  start: "init h fs = Inr s \<Longrightarrow> reachable s"
| edit: "reachable s \<Longrightarrow> reachable (s\<lparr>input_field := text\<rparr>)"
| enter: "reachable s \<Longrightarrow> reachable (execute_command h s)"
| press: "reachable s \<Longrightarrow> keyPressEvent k s = Some s' \<Longrightarrow> reachable s'"
| tick: "reachable s \<Longrightarrow> reachable (update_system_monitor h s)"
| world: "reachable s \<Longrightarrow> reachable (s\<lparr>disk := fs\<rparr>)"

section \<open>Notions of the specification\<close>

text \<open>
  The specification speaks of the first token of a line and of a table of verbs; the
  dispatcher has neither. They are defined here in the words of the specification, to be
  compared with \<^const>\<open>dispatch\<close>.
\<close>

definition first_token :: "string \<Rightarrow> string" where
  \<comment> \<open>The first word of a line that starts with no white space.\<close>
  "first_token line = takeWhile (\<lambda>c. \<not> isspace c) line"

definition verb_table :: "string list" where
  "verb_table = [''exit'', ''help'', ''cd'', ''pwd'', ''ls'', ''mkdir'', ''rm'', ''cp'', ''mv'',
                 ''clear'', ''history'', ''ps'', ''top'']"

definition matches_verb :: "string \<Rightarrow> string \<Rightarrow> bool" where
  \<comment> \<open>Exact match, regardless of case only for \<^verbatim>\<open>exit\<close> and \<^verbatim>\<open>help\<close>.\<close>
  "matches_verb tok v = (if v = ''exit'' \<or> v = ''help'' then lower tok = v else tok = v)"

definition builtin_token :: "string \<Rightarrow> bool" where
  "builtin_token tok = list_ex (matches_verb tok) verb_table"

fun verb_of :: "handler \<Rightarrow> string option" where
  \<comment> \<open>The verb of the built-in that a branch of the dispatcher runs.\<close>
  "verb_of Exit = Some ''exit''"
| "verb_of Help = Some ''help''"
| "verb_of (Cd p) = Some ''cd''"
| "verb_of Pwd = Some ''pwd''"
| "verb_of (Ls c) = Some ''ls''"
| "verb_of (Mkdir p) = Some ''mkdir''"
| "verb_of (Rm p) = Some ''rm''"
| "verb_of (Cp c) = Some ''cp''"
| "verb_of (Mv c) = Some ''mv''"
| "verb_of Clear = Some ''clear''"
| "verb_of History = Some ''history''"
| "verb_of Ps = Some ''ps''"
| "verb_of Top = Some ''top''"
| "verb_of (External c) = None"

definition takes_rest :: "string list" where
  \<comment> \<open>The verbs that the dispatcher accepts with text after them.\<close>
  "takes_rest = [''cd'', ''ls'', ''mkdir'', ''rm'', ''cp'', ''mv'']"

definition needs_rest :: "string list" where
  \<comment> \<open>The verbs that cannot do without an argument.\<close>
  "needs_rest = [''mkdir'', ''rm'', ''cp'', ''mv'']"

definition line_shape :: "string \<Rightarrow> string \<Rightarrow> bool" where
  \<comment> \<open>The whole line is its first token, or the verb takes arguments and is followed by a
      space character.\<close>
  "line_shape line v =
     (line = first_token line \<or> startswith line (v @ '' '') \<and> v \<in> set takes_rest)"

definition branch_shape :: "string \<Rightarrow> string \<Rightarrow> bool" where
  \<comment> \<open>What the branch of the verb \<open>v\<close> in \<^const>\<open>dispatch\<close> tests: as \<open>line_shape\<close>, but no
      branch tests for a verb of \<open>needs_rest\<close> alone.\<close>
  "branch_shape line v =
     (line = first_token line \<and> v \<notin> set needs_rest \<or>
      startswith line (v @ '' '') \<and> v \<in> set takes_rest)"



definition escaped :: "string \<Rightarrow> string" where
  "escaped w = concat (map (\<lambda>c. [CHR 0x5C, c]) w)"





section \<open>An example host and its session\<close>

text \<open>
  \<open>recall\<close> is the part of the session that history recall reads: the history and the
  cursor. \<open>cursor_ok\<close> is the range in which the code keeps the cursor.
\<close>

definition recall :: "terminal \<Rightarrow> string list \<times> int" where
  "recall s = (command_history s, history_index s)"

text \<open>
  A host for the examples: a Linux host that keeps UTC, whose \<^verbatim>\<open>shutil\<close> acts on the tree
  of the file system. The format \<^verbatim>\<open>:.1f\<close> rounds to one decimal; \<^verbatim>\<open>str\<close> is applied only to
  the shares that \<^verbatim>\<open>psutil\<close> reports, which it has rounded to one decimal, and prints
  that decimal.
\<close>

definition round_half_even :: "rat \<Rightarrow> int" where
  "round_half_even q =
     (let f = \<lfloor>q\<rfloor>; r = q - of_int f
      in if r < 1 / 2 then f else if 1 / 2 < r then f + 1 else if even f then f else f + 1)"

definition one_decimal :: "rat \<Rightarrow> string" where
  \<comment> \<open>The format \<^verbatim>\<open>:.1f\<close>: the nearest number with one decimal, a tie going to the even
      digit.\<close>
  "one_decimal q =
     (let n = nat (round_half_even (\<bar>q\<bar> * 10))
      in (if q < 0 then ''-'' else []) @ str_nat (n div 10) @ ''.'' @ str_nat (n mod 10))"

definition pad2 :: "int \<Rightarrow> string" where
  "pad2 n = (if n < 10 then ''0'' else []) @ str_int n"

definition civil :: "int \<Rightarrow> int \<times> int \<times> int" where
  \<comment> \<open>Year, month and day of the day that lies \<open>z0\<close> days after 1970-01-01.\<close>
  "civil z0 =
     (let z = z0 + 719468;
          era = z div 146097;
          doe = z mod 146097;
          yoe = (doe - doe div 1460 + doe div 36524 - doe div 146096) div 365;
          doy = doe - (365 * yoe + yoe div 4 - yoe div 100);
          mp = (5 * doy + 2) div 153;
          d = doy - (153 * mp + 2) div 5 + 1;
          m = (if mp < 10 then mp + 3 else mp - 9);
          y = yoe + era * 400 + (if m \<le> 2 then 1 else 0)
      in (y, m, d))"

definition utc_strftime :: "rat \<Rightarrow> exn + string" where
  \<comment> \<open>\<^verbatim>\<open>datetime.fromtimestamp(t).strftime('%Y-%m-%d %H:%M')\<close> in UTC: the time stamp is
      rounded to microseconds; the years of \<^verbatim>\<open>datetime\<close> are 1 to 9999.\<close>
  "utc_strftime t =
     (let secs = round_half_even (t * 1000000) div 1000000
      in if secs < - (2 ^ 63) \<or> 2 ^ 63 \<le> secs
         then Inl (OverflowError ''timestamp out of range for platform time_t'')
         else case civil (secs div 86400) of
                (y, m, d) \<Rightarrow>
                  if y < 1 \<or> 9999 < y
                  then Inl (ValueError (''year '' @ str_int y @ '' is out of range''))
                  else Inr (str_int y @ ''-'' @ pad2 m @ ''-'' @ pad2 d @ '' '' @
                            pad2 (secs mod 86400 div 3600) @ '':'' @ pad2 (secs mod 3600 div 60)))"

fun delete :: "node \<Rightarrow> string list \<Rightarrow> node" where
  \<comment> \<open>The tree without the entry at the given place.\<close>
  "delete n [] = n"
| "delete n [c] = (case n of Dir m es \<Rightarrow> Dir m (filter (\<lambda>e. fst e \<noteq> c) es) | _ \<Rightarrow> n)"
| "delete n (c # d # cs) =
     (case n of
        Dir m es \<Rightarrow>
          (case map_of es c of
             None \<Rightarrow> n
           | Some ch \<Rightarrow> Dir m (upd c (delete ch (d # cs)) es))
      | _ \<Rightarrow> n)"

definition locate :: "node \<Rightarrow> string \<Rightarrow> string \<Rightarrow> exn + string list" where
  \<comment> \<open>The place that the path \<open>p\<close> names, whether or not there is an entry.\<close>
  "locate fs cwd p =
     (if p = [] then Inl (FileNotFoundError p) else walk fs p [] (components cwd p))"

definition parent_writable :: "node \<Rightarrow> string list \<Rightarrow> bool" where
  "parent_writable fs loc =
     (loc \<noteq> [] \<and> (case get fs (butlast loc) of Some (Dir m es) \<Rightarrow> w_ok m \<and> x_ok m | _ \<Rightarrow> False))"

definition same_file :: "node \<Rightarrow> string \<Rightarrow> string \<Rightarrow> string \<Rightarrow> bool" where
  \<comment> \<open>\<^verbatim>\<open>os.path.samefile\<close>, for a tree without hard links.\<close>
  "same_file fs cwd a b =
     (exists_path fs cwd a \<and> exists_path fs cwd b \<and> locate fs cwd a = locate fs cwd b)"

definition is_special :: "node \<Rightarrow> string \<Rightarrow> string \<Rightarrow> bool" where
  "is_special fs cwd p = (case os_stat fs cwd p of Inr (Special m) \<Rightarrow> True | _ \<Rightarrow> False)"

definition repr_str :: "string \<Rightarrow> string" where
  \<comment> \<open>\<^verbatim>\<open>repr\<close> of a text with no backslash and no control character, and not both quotes.\<close>
  "repr_str t =
     (if CHR 0x27 \<in> set t \<and> CHR 0x22 \<notin> set t then [CHR 0x22] @ t @ [CHR 0x22] else quoted t)"

definition named_pipe :: "string \<Rightarrow> exn" where
  \<comment> \<open>\<^verbatim>\<open>shutil.SpecialFileError\<close>\<close>
  "named_pipe p = HostError ([CHR 0x60] @ p @ [CHR 0x60] @ '' is a named pipe'')"

definition tree_remove :: "string \<Rightarrow> node \<Rightarrow> string \<Rightarrow> exn option \<times> node" where
  \<comment> \<open>\<^verbatim>\<open>os.remove(p)\<close>\<close>
  "tree_remove cwd fs p =
     (case locate fs cwd p of
        Inl e \<Rightarrow> (Some e, fs)
      | Inr loc \<Rightarrow>
          (case get fs loc of
             None \<Rightarrow> (Some (FileNotFoundError p), fs)
           | Some (Dir m es) \<Rightarrow> (Some (IsADirectoryError p), fs)
           | Some n \<Rightarrow>
               if parent_writable fs loc then (None, delete fs loc)
               else (Some (PermissionError p), fs)))"

fun rm_contents :: "string \<Rightarrow> node \<Rightarrow> exn option \<times> node"
  and rm_entries :: "string \<Rightarrow> meta \<Rightarrow> (string \<times> node) list \<Rightarrow> exn option \<times> (string \<times> node) list" where
  \<comment> \<open>\<^verbatim>\<open>shutil.rmtree\<close> below the directory \<open>p\<close>: the entries are removed in their order,
      a directory after its contents; the first error ends it, and what is left stays.\<close>
  "rm_contents p (Dir m es) =
     (if \<not> r_ok m then (Some (PermissionError p), Dir m es)
      else case rm_entries p m es of (r, es') \<Rightarrow> (r, Dir m es'))"
| "rm_contents p (File m) = (None, File m)"
| "rm_contents p (Special m) = (None, Special m)"
| "rm_contents p Broken = (None, Broken)"
| "rm_entries p m [] = (None, [])"
| "rm_entries p m (e # es) =
     (if \<not> x_ok m then (Some (PermissionError (path_join p (fst e))), e # es)
      else case rm_contents (path_join p (fst e)) (snd e) of
             (Some err, n) \<Rightarrow> (Some err, (fst e, n) # es)
           | (None, n) \<Rightarrow>
               if w_ok m then rm_entries p m es
               else (Some (PermissionError (path_join p (fst e))), (fst e, n) # es))"

definition tree_rmtree :: "string \<Rightarrow> node \<Rightarrow> string \<Rightarrow> exn option \<times> node" where
  \<comment> \<open>\<^verbatim>\<open>shutil.rmtree(p)\<close>\<close>
  "tree_rmtree cwd fs p =
     (case locate fs cwd p of
        Inl e \<Rightarrow> (Some e, fs)
      | Inr loc \<Rightarrow>
          (case get fs loc of
             None \<Rightarrow> (Some (FileNotFoundError p), fs)
           | Some (Dir m es) \<Rightarrow>
               (case rm_contents p (Dir m es) of
                  (Some e, n) \<Rightarrow> (Some e, put fs loc n)
                | (None, n) \<Rightarrow>
                    if loc = []
                    then (Some (HostError (''[Errno 16] Device or resource busy: '' @ quoted p)),
                          put fs loc n)
                    else if parent_writable fs loc then (None, delete fs loc)
                    else (Some (PermissionError p), put fs loc n))
           | Some n \<Rightarrow> (Some (NotADirectoryError p), fs)))"

definition tree_copy2 :: "string \<Rightarrow> node \<Rightarrow> string \<Rightarrow> string \<Rightarrow> exn option \<times> node" where
  \<comment> \<open>\<^verbatim>\<open>shutil.copy2(src, dst)\<close>: into \<open>dst\<close> if that is a directory; the copy has the meta
      data of the source.\<close>
  "tree_copy2 cwd fs src dst0 =
     (let dst = (if isdir fs cwd dst0 then path_join dst0 (basename src) else dst0)
      in if same_file fs cwd src dst
         then (Some (HostError (repr_str src @ '' and '' @ repr_str dst @ '' are the same file'')), fs)
         else if is_special fs cwd src then (Some (named_pipe src), fs)
         else if is_special fs cwd dst then (Some (named_pipe dst), fs)
         else case os_stat fs cwd src of
                Inl e \<Rightarrow> (Some e, fs)
              | Inr (File m) \<Rightarrow>
                  if \<not> r_ok m then (Some (PermissionError src), fs)
                  else (case locate fs cwd dst of
                          Inl e \<Rightarrow> (Some e, fs)
                        | Inr loc \<Rightarrow>
                            (case get fs loc of
                               Some (Dir m' es) \<Rightarrow> (Some (IsADirectoryError dst), fs)
                             | Some (File m') \<Rightarrow>
                                 if w_ok m' then (None, put fs loc (File m))
                                 else (Some (PermissionError dst), fs)
                             | Some (Special m') \<Rightarrow> (Some (named_pipe dst), fs)
                             | Some Broken \<Rightarrow> (None, put fs loc (File m))
                             | None \<Rightarrow>
                                 if parent_writable fs loc then (None, put fs loc (File m))
                                 else (Some (PermissionError dst), fs)))
              | Inr n \<Rightarrow> (Some (IsADirectoryError src), fs))"

definition failure :: "string \<Rightarrow> string \<Rightarrow> exn \<Rightarrow> string" where
  \<comment> \<open>One entry of the list that \<^verbatim>\<open>shutil.Error\<close> carries.\<close>
  "failure src dst e =
     ''('' @ repr_str src @ '', '' @ repr_str dst @ '', '' @ repr_str (str_exn e) @ '')''"

fun copy_node :: "string \<Rightarrow> string \<Rightarrow> node \<Rightarrow> node option \<times> string list"
  and copy_entries :: "string \<Rightarrow> string \<Rightarrow> bool \<Rightarrow> (string \<times> node) list \<Rightarrow>
    (string \<times> node) list \<times> string list" where
  \<comment> \<open>The loop of \<^verbatim>\<open>shutil.copytree\<close>: what can be copied is copied, each failure is
      collected.\<close>
  "copy_node src dst (File m) =
     (if r_ok m then (Some (File m), []) else (None, [failure src dst (PermissionError src)]))"
| "copy_node src dst (Dir m es) =
     (if r_ok m
      then (case copy_entries src dst (x_ok m) es of (es', errs) \<Rightarrow> (Some (Dir m es'), errs))
      else (None, [failure src dst (PermissionError src)]))"
| "copy_node src dst (Special m) = (None, [failure src dst (named_pipe src)])"
| "copy_node src dst Broken = (None, [failure src dst (FileNotFoundError src)])"
| "copy_entries src dst x [] = ([], [])"
| "copy_entries src dst x (e # es) =
     (case (if x then copy_node (path_join src (fst e)) (path_join dst (fst e)) (snd e)
            else (None, [failure (path_join src (fst e)) (path_join dst (fst e))
                           (PermissionError (path_join src (fst e)))])) of
        (r, e1) \<Rightarrow>
          (case copy_entries src dst x es of
             (es', e2) \<Rightarrow> ((case r of None \<Rightarrow> es' | Some n \<Rightarrow> (fst e, n) # es'), e1 @ e2)))"

definition tree_copytree :: "string \<Rightarrow> meta \<Rightarrow> node \<Rightarrow> string \<Rightarrow> string \<Rightarrow> exn option \<times> node" where
  \<comment> \<open>\<^verbatim>\<open>shutil.copytree(src, dst)\<close>: \<open>dst\<close> must not exist, and is made with its parents.\<close>
  "tree_copytree cwd fresh fs src dst =
     (case os_stat fs cwd src of
        Inl e \<Rightarrow> (Some e, fs)
      | Inr (Dir m es) \<Rightarrow>
          if \<not> r_ok m then (Some (PermissionError src), fs)
          else (case locate fs cwd dst of
                  Inl e \<Rightarrow> (Some e, fs)
                | Inr loc \<Rightarrow>
                    if get fs loc \<noteq> None then (Some (FileExistsError dst), fs)
                    else (case makedirs fresh fs cwd dst of
                            (Some e, fs1) \<Rightarrow> (Some e, fs1)
                          | (None, fs1) \<Rightarrow>
                              (case copy_entries src dst (x_ok m) es of
                                 (es', errs) \<Rightarrow>
                                   (if errs = [] then None
                                    else Some (HostError (''['' @ join_with '', '' errs @ '']'')),
                                    put fs1 loc (Dir m es')))))
      | Inr n \<Rightarrow> (Some (NotADirectoryError src), fs))"

definition tree_rename :: "string \<Rightarrow> node \<Rightarrow> string \<Rightarrow> string \<Rightarrow> exn option \<times> node" where
  \<comment> \<open>\<^verbatim>\<open>os.rename(src, dst)\<close>; the error is only caught by \<^verbatim>\<open>shutil.move\<close>.\<close>
  "tree_rename cwd fs src dst =
     (case (locate fs cwd src, locate fs cwd dst) of
        (Inr ls, Inr ld) \<Rightarrow>
          (case get fs ls of
             None \<Rightarrow> (Some (FileNotFoundError src), fs)
           | Some n \<Rightarrow>
               if ls = ld then (None, fs)
               else if \<not> parent_writable fs ls \<or> \<not> parent_writable fs ld
                 then (Some (PermissionError src), fs)
               else if take (length ls) ld = ls then (Some (HostError ''[Errno 22] Invalid argument''), fs)
               else (case (n, get fs ld) of
                       (n, None) \<Rightarrow> (None, put (delete fs ls) ld n)
                     | (Dir m es, Some (Dir m' es')) \<Rightarrow>
                         if es' = [] then (None, put (delete fs ls) ld n)
                         else (Some (HostError ''[Errno 39] Directory not empty''), fs)
                     | (Dir m es, Some t) \<Rightarrow> (Some (NotADirectoryError src), fs)
                     | (n, Some (Dir m' es')) \<Rightarrow> (Some (IsADirectoryError src), fs)
                     | (n, Some t) \<Rightarrow> (None, put (delete fs ls) ld n)))
      | (Inl e, r) \<Rightarrow> (Some e, fs)
      | (Inr ls, Inl e) \<Rightarrow> (Some e, fs))"

definition tree_move :: "string \<Rightarrow> meta \<Rightarrow> node \<Rightarrow> string \<Rightarrow> string \<Rightarrow> exn option \<times> node" where
  \<comment> \<open>\<^verbatim>\<open>shutil.move(src, dst)\<close>: into \<open>dst\<close> if that is a directory; a rename, and if that
      fails a copy followed by the removal of the source.\<close>
  "tree_move cwd fresh fs src dst =
     (let inside = (isdir fs cwd dst \<and> \<not> same_file fs cwd src dst);
          real_dst = (if inside
                      then path_join dst (basename (rev (dropWhile (\<lambda>c. c = CHR ''/'') (rev src))))
                      else dst)
      in if inside \<and> exists_path fs cwd real_dst
         then (Some (HostError (''Destination path '' @ quoted real_dst @ '' already exists'')), fs)
         else case tree_rename cwd fs src real_dst of
                (None, fs1) \<Rightarrow> (None, fs1)
              | (Some e, fs1) \<Rightarrow>
                  if isdir fs cwd src
                  then (if (case (locate fs cwd src, locate fs cwd dst) of
                              (Inr ls, Inr ld) \<Rightarrow> take (length ls) ld = ls
                            | _ \<Rightarrow> False)
                        then (Some (HostError (''Cannot move a directory '' @ quoted src @
                                '' into itself '' @ quoted dst @ ''.'')), fs)
                        else case tree_copytree cwd fresh fs src real_dst of
                               (Some e, fs2) \<Rightarrow> (Some e, fs2)
                             | (None, fs2) \<Rightarrow> tree_rmtree cwd fs2 src)
                  else (case tree_copy2 cwd fs src real_dst of
                          (Some e, fs2) \<Rightarrow> (Some e, fs2)
                        | (None, fs2) \<Rightarrow> tree_remove cwd fs2 src))"

text \<open>
  The directory \<^verbatim>\<open>/home/user\<close> of the example host holds a hidden file, a file, two
  directories, a broken link and a FIFO; every external command prints \<^verbatim>\<open>out\<close> and
  warns \<^verbatim>\<open>warn\<close>. \<open>demo_start\<close> is the session as it starts there.
\<close>

definition plain :: "nat \<Rightarrow> meta" where
  "plain n = \<lparr>st_size = n, st_mtime = 0, r_ok = True, w_ok = True, x_ok = True\<rparr>"

definition demo_disk :: node where
  "demo_disk =
     Dir (plain 4096)
       [(''home'', Dir (plain 4096)
          [(''user'', Dir (plain 4096)
             [(''.hidden'', File (plain 12)),
              (''visible'', File (plain 340)),
              (''docs'', Dir (plain 4096) []),
              (''my dir'', Dir (plain 4096) []),
              (''broken'', Broken),
              (''pipe'', Special (plain 0))])])]"

definition demo_host :: host where
  "demo_host =
     \<lparr>getcwd = ''/home/user'',
      expanduser_home = ''/home/user'',
      getlogin = Inr ''user'',
      fresh_dir = plain 4096,
      strftime = utc_strftime,
      format_1f = one_decimal,
      str_float = one_decimal,
      popen = (\<lambda>fs command cwd. Inr (''out'', ''warn'', fs)),
      rmtree = tree_rmtree ''/home/user'',
      os_remove = tree_remove ''/home/user'',
      copytree = tree_copytree ''/home/user'' (plain 4096),
      copy2 = tree_copy2 ''/home/user'',
      move = tree_move ''/home/user'' (plain 4096),
      process_iter = Inr [],
      monitor_sample = Inl (HostError ''unavailable''),
      system_stats = Inl (HostError ''unavailable'')\<rparr>"

definition demo_start :: terminal where
  "demo_start =
     \<lparr>current_dir = ''/home/user'',
      command_history = [],
      history_index = - 1,
      output_area = [welcome_msg ''/home/user''],
      input_field = [],
      prompt_label = ''user@pyterm:$ '',
      monitor_label = [],
      quit_called = False,
      disk = demo_disk\<rparr>"

definition cursor_ok :: "terminal \<Rightarrow> bool" where
  "cursor_ok s =
     (history_index s = - 1 \<and> command_history s = [] \<or>
      0 \<le> history_index s \<and> history_index s \<le> int (length (command_history s)))"

section \<open>The short listing, and further examples\<close>

text \<open>
  \<open>printed s s'\<close> is what a command that leads from \<open>s\<close> to \<open>s'\<close> has added to the
  output. Of the names of a directory, the short format shows those in \<open>shown\<close>: the
  directories, then the files, each in the order of the host; \<open>columns\<close> is the text of
  their cells, one after the other, and \<open>short_cells\<close> are the cells as the code pads
  them. \<open>hidden\<close> is a name that starts with a dot.
\<close>

definition printed :: "terminal \<Rightarrow> terminal \<Rightarrow> string list" where
  "printed s s' = drop (length (output_area s)) (output_area s')"

definition hidden :: "string \<Rightarrow> bool" where
  "hidden f = (take 1 f = ''.'')"

definition shown :: "node \<Rightarrow> string \<Rightarrow> string \<Rightarrow> string list \<Rightarrow> string list" where
  "shown fs cwd path names =
     filter (\<lambda>f. isdir fs cwd (path_join path f)) names @
     filter (\<lambda>f. isfile fs cwd (path_join path f)) names"

definition columns :: "node \<Rightarrow> string \<Rightarrow> string \<Rightarrow> string list \<Rightarrow> string" where
  "columns fs cwd path names =
     (let w = foldr max (map length (shown fs cwd path names)) 0 + 2
      in concat (map (\<lambda>f. ljust w (if isdir fs cwd (path_join path f) then f @ ''/'' else f))
                   (shown fs cwd path names)))"

definition short_cells :: "node \<Rightarrow> string \<Rightarrow> string \<Rightarrow> string list \<Rightarrow> string list" where
  "short_cells fs cwd path files0 =
     (let dirs = short_dirs fs cwd path files0;
          files = short_files fs cwd path files0;
          max_len = column_width (files @ dirs)
      in map (\<lambda>d. ljust max_len (d @ ''/'')) dirs @ map (ljust max_len) files)"

text \<open>
  A directory with one sub-directory and two files whose names are 38 characters long.
\<close>

definition wide_disk :: node where
  "wide_disk =
     Dir (plain 4096)
       [(''w'', Dir (plain 4096)
          [(''quarterly_financial_report_2023_v1.pdf'', File (plain 1000)),
           (''old'', Dir (plain 4096) []),
           (''quarterly_financial_report_2023_v2.pdf'', File (plain 2000))])]"

definition wide_session :: terminal where
  "wide_session = demo_start\<lparr>current_dir := ''/w'', disk := wide_disk\<rparr>"

text \<open>
  Two processes; the host cannot read the CPU share of the first.
\<close>

definition demo_procs :: "proc list" where
  "demo_procs =
     [\<lparr>pid = 1, name = Some ''init'', username = Some ''root'', cpu_percent = None,
       memory_info = Some 1048576\<rparr>,
      \<lparr>pid = 42, name = Some ''python'', username = Some ''user'', cpu_percent = Some 5,
       memory_info = Some 52428800\<rparr>]"

definition ps_host :: host where
  "ps_host = demo_host\<lparr>process_iter := Inr demo_procs\<rparr>"

text \<open>
  The example disk after \<^verbatim>\<open>mkdir a/b/c\<close> in \<^verbatim>\<open>/home/user\<close>.
\<close>

definition demo_disk_abc :: node where
  "demo_disk_abc =
     Dir (plain 4096)
       [(''home'', Dir (plain 4096)
          [(''user'', Dir (plain 4096)
             [(''.hidden'', File (plain 12)),
              (''visible'', File (plain 340)),
              (''docs'', Dir (plain 4096) []),
              (''my dir'', Dir (plain 4096) []),
              (''broken'', Broken),
              (''pipe'', Special (plain 0)),
              (''a'', Dir (plain 4096) [(''b'', Dir (plain 4096) [(''c'', Dir (plain 4096) [])])])])])]"

text \<open>
  A directory whose entries are all files and directories, one of them hidden; the same
  with a hidden broken link as its first entry; and a directory that holds a file and a
  directory with a space in their names.
\<close>

definition tidy_disk :: node where
  "tidy_disk =
     Dir (plain 4096)
       [(''t'', Dir (plain 4096)
          [(''.cfg'', File (plain 80)),
           (''notes'', Dir (plain 4096) []),
           (''visible'', File (plain 340))])]"

definition tidy_session :: terminal where
  "tidy_session = demo_start\<lparr>current_dir := ''/t'', disk := tidy_disk\<rparr>"

definition dot_disk :: node where
  "dot_disk =
     Dir (plain 4096)
       [(''d'', Dir (plain 4096)
          [(''.broken'', Broken),
           (''.cfg'', File (plain 80)),
           (''notes'', Dir (plain 4096) []),
           (''visible'', File (plain 340))])]"

definition dot_session :: terminal where
  "dot_session = demo_start\<lparr>current_dir := ''/d'', disk := dot_disk\<rparr>"





text \<open>
  The host of the examples when the login name cannot be read any more, as it happens
  once the terminal from which the program was started is closed.
\<close>

definition detached_host :: host where
  "detached_host = demo_host\<lparr>getlogin := Inl (HostError ''[Errno 6] No such device or address'')\<rparr>"

section \<open>Auxiliary facts: text, the branches of the dispatcher, evaluation\<close>

lemma isspace_lower: "isspace c \<Longrightarrow> lower_char c = c"
  unfolding isspace_def lower_char_def Let_def by auto

lemma startswith_iff: "startswith s p \<longleftrightarrow> (\<exists>r. s = p @ r)"
  unfolding startswith_def
  by (metis append_eq_conv_conj append_take_drop_id)

lemma first_token_all: "\<forall>c\<in>set s. \<not> isspace c \<Longrightarrow> first_token s = s"
  by (simp add: first_token_def)

lemma lower_no_space:
  assumes "lower s = t" and "\<forall>c\<in>set t. \<not> isspace c"
  shows "first_token s = s"
proof (rule first_token_all, rule ballI)
  fix c assume c: "c \<in> set s"
  then have "lower_char c \<in> set t" using assms(1) by (auto simp: lower_def)
  then have "\<not> isspace (lower_char c)" using assms(2) by blast
  then show "\<not> isspace c" using isspace_lower by fastforce
qed

lemma lower_exit: "lower s = ''exit'' \<Longrightarrow> first_token s = s"
  by (erule lower_no_space) (simp add: isspace_def)

lemma lower_help: "lower s = ''help'' \<Longrightarrow> first_token s = s"
  by (erule lower_no_space) (simp add: isspace_def)

lemma dispatch_Exit: "dispatch line = Exit \<Longrightarrow> lower line = ''exit''"
  by (simp add: dispatch_def split: if_splits)

lemma dispatch_Help: "dispatch line = Help \<Longrightarrow> lower line = ''help''"
  by (simp add: dispatch_def split: if_splits)

lemma dispatch_Cd: "dispatch line = Cd p \<Longrightarrow> startswith line ''cd '' \<and> p = drop 3 line \<or> line = ''cd'' \<and> p = []"
  by (simp add: dispatch_def split: if_splits)

lemma dispatch_Pwd: "dispatch line = Pwd \<Longrightarrow> line = ''pwd''"
  by (simp add: dispatch_def split: if_splits)

lemma dispatch_Ls: "dispatch line = Ls c \<Longrightarrow> (line = ''ls'' \<or> startswith line ''ls '') \<and> c = line"
  by (simp add: dispatch_def split: if_splits)

lemma dispatch_Mkdir: "dispatch line = Mkdir p \<Longrightarrow> startswith line ''mkdir '' \<and> p = drop 6 line"
  by (simp add: dispatch_def split: if_splits)

lemma dispatch_Rm: "dispatch line = Rm p \<Longrightarrow> startswith line ''rm '' \<and> p = drop 3 line"
  by (simp add: dispatch_def split: if_splits)

lemma dispatch_Cp: "dispatch line = Cp c \<Longrightarrow> startswith line ''cp '' \<and> c = line"
  by (simp add: dispatch_def split: if_splits)

lemma dispatch_Mv: "dispatch line = Mv c \<Longrightarrow> startswith line ''mv '' \<and> c = line"
  by (simp add: dispatch_def split: if_splits)

lemma dispatch_Clear: "dispatch line = Clear \<Longrightarrow> line = ''clear''"
  by (simp add: dispatch_def split: if_splits)

lemma dispatch_History: "dispatch line = History \<Longrightarrow> line = ''history''"
  by (simp add: dispatch_def split: if_splits)

lemma dispatch_Ps: "dispatch line = Ps \<Longrightarrow> line = ''ps''"
  by (simp add: dispatch_def split: if_splits)

lemma dispatch_Top: "dispatch line = Top \<Longrightarrow> line = ''top''"
  by (simp add: dispatch_def split: if_splits)

lemma dispatch_External: "dispatch line = External c \<Longrightarrow> c = line"
  by (simp add: dispatch_def split: if_splits)

lemmas dispatch_eval = dispatch_def startswith_def lower_def lower_char_def

lemma dispatch_cd: "dispatch (''cd '' @ path) = Cd path"
  by (simp add: dispatch_def startswith_def lower_def lower_char_def)

lemma token_alone: "\<forall>c\<in>set w. \<not> isspace c \<Longrightarrow> first_token w = w"
  by (simp add: first_token_def)

lemma token_rest:
  assumes "startswith line (w @ '' '')" and "\<forall>c\<in>set w. \<not> isspace c"
  shows "first_token line = w"
proof -
  from assms(1) obtain r where line: "line = w @ CHR '' '' # r"
    by (auto simp: startswith_iff)
  have "takeWhile (\<lambda>c. \<not> isspace c) (w @ CHR '' '' # r) = w @ takeWhile (\<lambda>c. \<not> isspace c) (CHR '' '' # r)"
    using assms(2) by (intro takeWhile_append2) simp
  also have "\<dots> = w"
    by (simp add: isspace_def)
  finally show ?thesis
    by (simp add: first_token_def line)
qed

lemma strip_last: "strip t \<noteq> [] \<Longrightarrow> \<not> isspace (last (strip t))"
proof -
  let ?xs = "dropWhile isspace (rev (dropWhile isspace t))"
  assume "strip t \<noteq> []"
  then have ne: "?xs \<noteq> []" by (simp add: strip_def)
  then have "\<not> isspace (hd ?xs)" by (rule hd_dropWhile)
  moreover from ne have "last (strip t) = hd ?xs" by (simp add: strip_def last_rev)
  ultimately show ?thesis by simp
qed

lemma strip_no_trailing_space: "strip t \<noteq> v @ '' ''"
proof
  assume e: "strip t = v @ '' ''"
  then have "strip t \<noteq> []" by simp
  from strip_last [OF this] show False
    unfolding e by (simp add: isspace_def)
qed

lemma replicate_numeral_unfold: "replicate (numeral k) x = x # replicate (pred_numeral k) x"
  by (simp add: numeral_eq_Suc)

lemmas text_eval = digit_def rjust_def ljust_def str_int_def replicate_numeral_unfold

lemmas path_eval = abspath_def normpath_def path_join_def isabs_def startswith_def endswith_def
  initial_slashes_def

lemmas fs_eval = isdir_def isfile_def exists_path_def os_stat_def components_def isabs_def
  startswith_def endswith_def path_join_def demo_disk_def plain_def

lemmas shlex_eval = shlex_split_def shlex_whitespace_def shlex_quote_def shlex_escape_def

lemmas demo_eval = demo_start_def demo_host_def demo_disk_def plain_def exists_path_def
  isfile_def isdir_def os_stat_def os_access_def components_def isabs_def startswith_def
  path_join_def endswith_def listdir_def

lemmas wide_eval = wide_session_def demo_start_def demo_host_def wide_disk_def plain_def
  exists_path_def isfile_def isdir_def os_stat_def components_def isabs_def startswith_def
  path_join_def endswith_def listdir_def

lemma appends_output: "output_area (foldl append_out s ts) = output_area s @ ts"
  by (induction ts arbitrary: s) (simp_all add: append_out_def)

lemma demo_init: "init demo_host demo_disk = Inr demo_start"
  by (simp add: init_def demo_host_def demo_start_def)

lemma demo_reachable: "reachable demo_start"
  using demo_init by (rule reachable.start)

text \<open>
  The numbers and the time stamp of the examples, as the example host prints them.
\<close>

lemma round_half_even_int: "round_half_even (of_int k) = k"
  by (simp add: round_half_even_def)

lemma one_decimal_5: "one_decimal 5 = ''5.0''"
proof -
  have "round_half_even (\<bar>5\<bar> * 10) = 50"
    using round_half_even_int [of 50] by simp
  then show ?thesis
    by (simp add: one_decimal_def text_eval)
qed

lemma one_decimal_50: "one_decimal 50 = ''50.0''"
proof -
  have "round_half_even (\<bar>50\<bar> * 10) = 500"
    using round_half_even_int [of 500] by simp
  then show ?thesis
    by (simp add: one_decimal_def text_eval)
qed

lemma civil_epoch: "civil 0 = (1970, 1, 1)"
  by code_simp

lemma pad2_small: "pad2 0 = ''00''" "pad2 1 = ''01''"
  by (simp_all add: pad2_def text_eval)

lemma utc_epoch: "utc_strftime 0 = Inr ''1970-01-01 00:00''"
proof -
  have y: "str_int 1970 = ''1970''"
    by (simp add: text_eval)
  show ?thesis
    by (simp add: utc_strftime_def round_half_even_def civil_epoch pad2_small y)
qed

section \<open>What \<^verbatim>\<open>ls\<close> prints\<close>

text \<open>
  The two formats of \<^verbatim>\<open>list_files\<close> for a directory, and the four lines \<^verbatim>\<open>ls\<close>,
  \<^verbatim>\<open>ls -a\<close>, \<^verbatim>\<open>ls -l\<close> and \<^verbatim>\<open>ls -la\<close> in the directory of the session.
\<close>

lemma list_files_short:
  assumes "shlex_split command = Inr parts"
    and "ls_args (current_dir s) parts = (show_all, False, path)"
    and "exists_path (disk s) (getcwd h) path"
    and "\<not> isfile (disk s) (getcwd h) path"
    and "listdir (disk s) (getcwd h) path = Inr names"
  shows "output_area (list_files h s command) =
           output_area s @ short_rows (disk s) (getcwd h) path (visible show_all names)"
  using assms by (simp add: list_files_def appends_output)

lemma list_files_long:
  assumes "shlex_split command = Inr parts"
    and "ls_args (current_dir s) parts = (show_all, True, path)"
    and "exists_path (disk s) (getcwd h) path"
    and "\<not> isfile (disk s) (getcwd h) path"
    and "listdir (disk s) (getcwd h) path = Inr names"
  shows "output_area (list_files h s command) =
           output_area s @ fst (long_rows h (disk s) path (visible show_all names)) @
             (case snd (long_rows h (disk s) path (visible show_all names)) of
                None \<Rightarrow> [] | Some e \<Rightarrow> [''Error: '' @ str_exn e])"
  using assms
  by (simp add: list_files_def appends_output report_def append_out_def
      split: prod.splits option.splits)

lemma listdir_dir:
  assumes "listdir fs cwd p = Inr names"
  shows "exists_path fs cwd p" and "\<not> isfile fs cwd p" and "isdir fs cwd p"
  using assms
  by (auto simp: listdir_def exists_path_def isfile_def isdir_def
      split: sum.splits node.splits if_splits)

lemma visible_all: "visible True names = names"
  by (simp add: visible_def)

lemma visible_some: "visible False names = filter (\<lambda>f. \<not> hidden f) names"
  by (simp add: visible_def hidden_def startswith_def)

lemma ls_lines:
  "dispatch ''ls'' = Ls ''ls''" "dispatch ''ls -a'' = Ls ''ls -a''"
  "dispatch ''ls -l'' = Ls ''ls -l''" "dispatch ''ls -la'' = Ls ''ls -la''"
  by (simp_all add: dispatch_eval)

lemma ls_words:
  "shlex_split ''ls'' = Inr [''ls'']" "shlex_split ''ls -a'' = Inr [''ls'', ''-a'']"
  "shlex_split ''ls -l'' = Inr [''ls'', ''-l'']" "shlex_split ''ls -la'' = Inr [''ls'', ''-la'']"
  by (simp_all add: shlex_eval)

lemma ls_flags:
  "ls_args cur [''ls''] = (False, False, cur)" "ls_args cur [''ls'', ''-a''] = (True, False, cur)"
  "ls_args cur [''ls'', ''-l''] = (False, True, cur)" "ls_args cur [''ls'', ''-la''] = (True, True, cur)"
  by (simp_all add: ls_args_def startswith_def)

lemma printed_append: "output_area s' = output_area s @ rows \<Longrightarrow> printed s s' = rows"
  by (simp add: printed_def)

lemma ls_here:
  assumes "listdir (disk s) (getcwd h) (current_dir s) = Inr names"
  shows "output_area (run h (dispatch ''ls'') s) =
           output_area s @ short_rows (disk s) (getcwd h) (current_dir s)
             (filter (\<lambda>f. \<not> hidden f) names)"
    and "output_area (run h (dispatch ''ls -a'') s) =
           output_area s @ short_rows (disk s) (getcwd h) (current_dir s) names"
proof -
  note d = listdir_dir [OF assms]
  from list_files_short [OF ls_words(1) ls_flags(1) d(1) d(2) assms]
  show "output_area (run h (dispatch ''ls'') s) =
           output_area s @ short_rows (disk s) (getcwd h) (current_dir s)
             (filter (\<lambda>f. \<not> hidden f) names)"
    unfolding ls_lines visible_some by simp
  from list_files_short [OF ls_words(2) ls_flags(2) d(1) d(2) assms]
  show "output_area (run h (dispatch ''ls -a'') s) =
           output_area s @ short_rows (disk s) (getcwd h) (current_dir s) names"
    unfolding ls_lines visible_all by simp
qed

lemma ls_long_here:
  assumes "listdir (disk s) (getcwd h) (current_dir s) = Inr names"
  shows "output_area (run h (dispatch ''ls -l'') s) =
           output_area s @
             fst (long_rows h (disk s) (current_dir s) (filter (\<lambda>f. \<not> hidden f) names)) @
             (case snd (long_rows h (disk s) (current_dir s) (filter (\<lambda>f. \<not> hidden f) names)) of
                None \<Rightarrow> [] | Some e \<Rightarrow> [''Error: '' @ str_exn e])"
    and "output_area (run h (dispatch ''ls -la'') s) =
           output_area s @ fst (long_rows h (disk s) (current_dir s) names) @
             (case snd (long_rows h (disk s) (current_dir s) names) of
                None \<Rightarrow> [] | Some e \<Rightarrow> [''Error: '' @ str_exn e])"
proof -
  note d = listdir_dir [OF assms]
  from list_files_long [OF ls_words(3) ls_flags(3) d(1) d(2) assms]
  show "output_area (run h (dispatch ''ls -l'') s) =
           output_area s @
             fst (long_rows h (disk s) (current_dir s) (filter (\<lambda>f. \<not> hidden f) names)) @
             (case snd (long_rows h (disk s) (current_dir s) (filter (\<lambda>f. \<not> hidden f) names)) of
                None \<Rightarrow> [] | Some e \<Rightarrow> [''Error: '' @ str_exn e])"
    unfolding ls_lines visible_some by simp
  from list_files_long [OF ls_words(4) ls_flags(4) d(1) d(2) assms]
  show "output_area (run h (dispatch ''ls -la'') s) =
           output_area s @ fst (long_rows h (disk s) (current_dir s) names) @
             (case snd (long_rows h (disk s) (current_dir s) names) of
                None \<Rightarrow> [] | Some e \<Rightarrow> [''Error: '' @ str_exn e])"
    unfolding ls_lines visible_all by simp
qed

lemma long_rows_all:
  assumes "\<forall>f\<in>set files. \<exists>l. long_line h fs (path_join path f) f = Inr l"
  shows "long_rows h fs path files =
           (map (\<lambda>f. projr (long_line h fs (path_join path f) f)) files, None)"
  using assms
proof (induction files)
  case Nil
  show ?case by simp
next
  case (Cons f files)
  from Cons.prems obtain l where l: "long_line h fs (path_join path f) f = Inr l" by auto
  from Cons.prems have "\<forall>f\<in>set files. \<exists>l. long_line h fs (path_join path f) f = Inr l" by simp
  from Cons.IH [OF this] l show ?case by simp
qed

lemma long_rows_stop:
  assumes "\<forall>f\<in>set before. \<exists>l. long_line h fs (path_join path f) f = Inr l"
    and "long_line h fs (path_join path g) g = Inl e"
  shows "long_rows h fs path (before @ g # after) =
           (map (\<lambda>f. projr (long_line h fs (path_join path f) f)) before, Some e)"
  using assms(1)
proof (induction before)
  case Nil
  show ?case by (simp add: assms(2))
next
  case (Cons f before)
  from Cons.prems obtain l where l: "long_line h fs (path_join path f) f = Inr l" by auto
  from Cons.prems have "\<forall>f\<in>set before. \<exists>l. long_line h fs (path_join path f) f = Inr l" by simp
  from Cons.IH [OF this] l show ?case by simp
qed

lemma long_line_ok:
  assumes "os_stat fs (getcwd h) full = Inr n" and "meta_of n = Some m"
    and "strftime h (st_mtime m) = Inr t"
  shows "long_line h fs full f =
           Inr ((if isfile fs (getcwd h) full then ''-'' else ''d'') @
                (if os_access r_ok fs (getcwd h) full then ''r'' else ''-'') @
                (if os_access w_ok fs (getcwd h) full then ''w'' else ''-'') @
                (if os_access x_ok fs (getcwd h) full then ''x'' else ''-'') @
                '' '' @ rjust 8 (str_nat (st_size m)) @ '' '' @ t @ '' '' @ f)"
  using assms by (simp add: long_line_def)

lemma long_line_name:
  assumes "long_line h fs full f = Inr l"
  shows "\<exists>body. l = (if isfile fs (getcwd h) full then ''-'' else ''d'') @ body @ '' '' @ f"
  using assms
  by (auto simp: long_line_def split: sum.splits option.splits)

lemma long_line_unreachable:
  "\<not> exists_path fs (getcwd h) full \<Longrightarrow> \<exists>e. long_line h fs full f = Inl e"
  by (simp add: long_line_def exists_path_def split: sum.splits)

section \<open>C1: cd\<close>

lemma change_directory_missing:
  assumes "\<not> isdir (disk s) (getcwd h) (abspath (getcwd h) (path_join (current_dir s) path))"
    and "path \<noteq> []"
  shows "change_directory h s path = append_out s (''Error: Directory not found: '' @ path)"
  using assms by (simp add: change_directory_def Let_def)

lemma change_directory_found:
  assumes "isdir (disk s) (getcwd h) (abspath (getcwd h) (path_join (current_dir s) path))"
    and "path \<noteq> []" and "getlogin h = Inr user"
  shows "current_dir (change_directory h s path) =
           abspath (getcwd h) (path_join (current_dir s) path) \<and>
         output_area (change_directory h s path) = output_area s"
  using assms by (simp add: change_directory_def update_prompt_def Let_def)

lemma change_directory_login_fails:
  assumes "isdir (disk s) (getcwd h) (abspath (getcwd h) (path_join (current_dir s) path))"
    and "path \<noteq> []" and "getlogin h = Inl e"
  shows "change_directory h s path =
           report (s\<lparr>current_dir := abspath (getcwd h) (path_join (current_dir s) path)\<rparr>) e"
  using assms by (simp add: change_directory_def update_prompt_def Let_def)

text \<open>
  C1, as stated, fails when the host cannot tell the login name any more: the prompt is
  redrawn inside the \<^verbatim>\<open>try\<close> of \<^verbatim>\<open>change_directory\<close>, after the directory has been
  changed, and \<^verbatim>\<open>os.getlogin()\<close> raises. In the session that started in \<^verbatim>\<open>/home/user\<close>,
  \<^verbatim>\<open>cd docs\<close> names an existing directory; the directory is changed, and an error is
  printed.
\<close>

theorem cd_login_counterexample:
  "reachable demo_start \<and>
   isdir (disk demo_start) (getcwd detached_host)
     (abspath (getcwd detached_host) (path_join (current_dir demo_start) ''docs'')) \<and>
   run detached_host (dispatch ''cd docs'') demo_start =
     append_out (demo_start\<lparr>current_dir := ''/home/user/docs''\<rparr>)
       ''Error: [Errno 6] No such device or address'' \<and>
   output_area (submit detached_host ''cd docs'' demo_start) =
     output_area demo_start @ [''$ cd docs'', ''Error: [Errno 6] No such device or address''] \<and>
   current_dir (submit detached_host ''cd docs'' demo_start) = ''/home/user/docs'' \<and>
   reachable (submit detached_host ''cd docs'' demo_start)"
proof -
  have a: "abspath (getcwd detached_host) (path_join (current_dir demo_start) ''docs'') =
             ''/home/user/docs''"
    by (simp add: detached_host_def demo_host_def demo_start_def path_eval)
  have y: "isdir (disk demo_start) (getcwd detached_host) ''/home/user/docs''"
    by (simp add: detached_host_def demo_host_def demo_start_def fs_eval)
  have d: "dispatch ''cd docs'' = Cd ''docs''"
    by (simp add: dispatch_eval)
  have l: "getlogin detached_host = Inl (HostError ''[Errno 6] No such device or address'')"
    by (simp add: detached_host_def)
  have c: "change_directory detached_host s ''docs'' =
             append_out (s\<lparr>current_dir := ''/home/user/docs''\<rparr>)
               ''Error: [Errno 6] No such device or address''"
    if "current_dir s = ''/home/user''" and "disk s = disk demo_start" for s
    using that a y
    by (simp add: change_directory_def update_prompt_def l report_def Let_def demo_start_def)
  have r: "run detached_host (dispatch ''cd docs'') demo_start =
     append_out (demo_start\<lparr>current_dir := ''/home/user/docs''\<rparr>)
       ''Error: [Errno 6] No such device or address''"
    unfolding d by (simp add: c demo_start_def)
  have s: "strip ''cd docs'' = ''cd docs''"
    by (simp add: strip_def isspace_def)
  have e: "submit detached_host ''cd docs'' demo_start =
             change_directory detached_host
               (append_out
                  (demo_start\<lparr>input_field := [], command_history := [''cd docs''],
                     history_index := 1\<rparr>) ''$ cd docs'') ''docs''"
    by (simp add: submit_def execute_command_def s d Let_def demo_start_def)
  have o: "output_area (submit detached_host ''cd docs'' demo_start) =
     output_area demo_start @ [''$ cd docs'', ''Error: [Errno 6] No such device or address'']"
    and f: "current_dir (submit detached_host ''cd docs'' demo_start) = ''/home/user/docs''"
    unfolding e by (simp_all add: c append_out_def demo_start_def)
  have "reachable (demo_start\<lparr>input_field := ''cd docs''\<rparr>)"
    using demo_reachable by (rule reachable.edit)
  then have "reachable (execute_command detached_host (demo_start\<lparr>input_field := ''cd docs''\<rparr>))"
    by (rule reachable.enter)
  then have "reachable (submit detached_host ''cd docs'' demo_start)"
    by (simp add: submit_def)
  with demo_reachable y r o f show ?thesis
    unfolding a by blast
qed

text \<open>
  C1, amended: for a path argument \<open>P\<close> (not empty), \<^verbatim>\<open>cd P\<close> resolves
  \<^verbatim>\<open>abspath(join(current_dir, P))\<close>. If that is no existing directory, the session is
  unchanged but for one more output line, the error naming \<open>P\<close> as it was typed, and
  \<open>current_dir\<close> stays. If it is an existing directory and the host can tell the login
  name for the prompt, as it did at start-up, \<open>current_dir\<close> becomes the resolved path
  and nothing is printed.
\<close>

theorem cd_missing_or_existing:
  assumes "path \<noteq> []"
  shows "(\<not> isdir (disk s) (getcwd h) (abspath (getcwd h) (path_join (current_dir s) path)) \<longrightarrow>
            run h (dispatch (''cd '' @ path)) s =
              append_out s (''Error: Directory not found: '' @ path) \<and>
            current_dir (run h (dispatch (''cd '' @ path)) s) = current_dir s) \<and>
         (isdir (disk s) (getcwd h) (abspath (getcwd h) (path_join (current_dir s) path)) \<and>
          getlogin h = Inr user \<longrightarrow>
            current_dir (run h (dispatch (''cd '' @ path)) s) =
              abspath (getcwd h) (path_join (current_dir s) path) \<and>
            output_area (run h (dispatch (''cd '' @ path)) s) = output_area s)"
proof -
  have d: "run h (dispatch (''cd '' @ path)) s = change_directory h s path"
    unfolding dispatch_cd by simp
  show ?thesis
    unfolding d
  proof (intro conjI impI)
    assume n: "\<not> isdir (disk s) (getcwd h) (abspath (getcwd h) (path_join (current_dir s) path))"
    from change_directory_missing [OF n assms]
    show e: "change_directory h s path = append_out s (''Error: Directory not found: '' @ path)" .
    show "current_dir (change_directory h s path) = current_dir s"
      unfolding e by (simp add: append_out_def)
  next
    assume y: "isdir (disk s) (getcwd h) (abspath (getcwd h) (path_join (current_dir s) path)) \<and>
               getlogin h = Inr user"
    from change_directory_found [OF conjunct1 [OF y] assms conjunct2 [OF y]]
    show "current_dir (change_directory h s path) =
            abspath (getcwd h) (path_join (current_dir s) path)"
      and "output_area (change_directory h s path) = output_area s"
      by simp_all
  qed
qed

theorem cd_missing_or_existing_witness:
  "run demo_host (dispatch (''cd '' @ ''nope'')) demo_start =
     append_out demo_start (''Error: Directory not found: '' @ ''nope'') \<and>
   current_dir (run demo_host (dispatch (''cd '' @ ''nope'')) demo_start) = current_dir demo_start \<and>
   current_dir (run demo_host (dispatch (''cd '' @ ''docs/../docs'')) demo_start) = ''/home/user/docs'' \<and>
   output_area (run demo_host (dispatch (''cd '' @ ''docs/../docs'')) demo_start) = output_area demo_start"
proof -
  have a1: "abspath (getcwd demo_host) (path_join (current_dir demo_start) ''nope'') = ''/home/user/nope''"
    by (simp add: demo_host_def demo_start_def path_eval)
  have a2: "abspath (getcwd demo_host) (path_join (current_dir demo_start) ''docs/../docs'') = ''/home/user/docs''"
    by (simp add: demo_host_def demo_start_def path_eval)
  have n: "\<not> isdir (disk demo_start) (getcwd demo_host) ''/home/user/nope''"
    by (simp add: demo_host_def demo_start_def fs_eval)
  have y: "isdir (disk demo_start) (getcwd demo_host) ''/home/user/docs''"
    by (simp add: demo_host_def demo_start_def fs_eval)
  have l: "getlogin demo_host = Inr ''user''"
    by (simp add: demo_host_def)
  have p1: "''nope'' \<noteq> []" and p2: "''docs/../docs'' \<noteq> []" by simp_all
  from cd_missing_or_existing [OF p1, of demo_start demo_host "''user''"] n
    cd_missing_or_existing [OF p2, of demo_start demo_host "''user''"] y l
  show ?thesis
    unfolding a1 a2 by blast
qed

text \<open>
  With no argument, \<^verbatim>\<open>cd\<close> puts the home directory of the host in the place of the
  path, also in the error message.
\<close>

lemma cd_home:
  "change_directory h s [] =
     (if isdir (disk s) (getcwd h) (abspath (getcwd h) (path_join (current_dir s) (expanduser_home h)))
      then (case update_prompt h (s\<lparr>current_dir := abspath (getcwd h) (path_join (current_dir s) (expanduser_home h))\<rparr>) of
              Inl e \<Rightarrow> report (s\<lparr>current_dir := abspath (getcwd h) (path_join (current_dir s) (expanduser_home h))\<rparr>) e
            | Inr s2 \<Rightarrow> s2)
      else append_out s (''Error: Directory not found: '' @ expanduser_home h))"
  by (simp add: change_directory_def Let_def)

section \<open>C2: how the dispatcher selects a built-in\<close>

lemma shape_alone:
  assumes "\<forall>c\<in>set w. \<not> isspace c" and "w \<notin> set needs_rest"
    and "w \<noteq> ''exit''" and "w \<noteq> ''help''"
  shows "matches_verb (first_token w) w \<and> branch_shape w w"
  using assms by (simp add: token_alone matches_verb_def branch_shape_def)

lemma shape_rest:
  assumes "startswith line (w @ '' '')" and "\<forall>c\<in>set w. \<not> isspace c" and "w \<in> set takes_rest"
    and "w \<noteq> ''exit''" and "w \<noteq> ''help''"
  shows "matches_verb (first_token line) w \<and> branch_shape line w"
  using assms by (simp add: token_rest matches_verb_def branch_shape_def)

lemma selected_then_shape:
  assumes "verb_of (dispatch line) = Some v"
  shows "v \<in> set verb_table \<and> matches_verb (first_token line) v \<and> branch_shape line v"
proof (cases "dispatch line")
  case Exit
  with assms have v: "v = ''exit''" by simp
  from Exit have l: "lower line = ''exit''" by (rule dispatch_Exit)
  then have "first_token line = line" by (rule lower_exit)
  with l v show ?thesis
    by (simp add: verb_table_def matches_verb_def branch_shape_def needs_rest_def)
next
  case Help
  with assms have v: "v = ''help''" by simp
  from Help have l: "lower line = ''help''" by (rule dispatch_Help)
  then have "first_token line = line" by (rule lower_help)
  with l v show ?thesis
    by (simp add: verb_table_def matches_verb_def branch_shape_def needs_rest_def)
next
  case (Cd p)
  with assms have v: "v = ''cd''" by simp
  from dispatch_Cd [OF Cd] consider "startswith line ''cd ''" | "line = ''cd''" by blast
  then have "matches_verb (first_token line) ''cd'' \<and> branch_shape line ''cd''"
  proof cases
    case 1
    with shape_rest [of line "''cd''"] show ?thesis by (simp add: isspace_def takes_rest_def)
  next
    case 2
    with shape_alone [of "''cd''"] show ?thesis by (simp add: isspace_def needs_rest_def)
  qed
  with v show ?thesis by (simp add: verb_table_def)
next
  case Pwd
  with assms have v: "v = ''pwd''" by simp
  from dispatch_Pwd [OF Pwd] shape_alone [of "''pwd''"]
  have "matches_verb (first_token line) ''pwd'' \<and> branch_shape line ''pwd''"
    by (simp add: isspace_def needs_rest_def)
  with v show ?thesis by (simp add: verb_table_def)
next
  case (Ls c)
  with assms have v: "v = ''ls''" by simp
  from dispatch_Ls [OF Ls] consider "startswith line ''ls ''" | "line = ''ls''" by blast
  then have "matches_verb (first_token line) ''ls'' \<and> branch_shape line ''ls''"
  proof cases
    case 1
    with shape_rest [of line "''ls''"] show ?thesis by (simp add: isspace_def takes_rest_def)
  next
    case 2
    with shape_alone [of "''ls''"] show ?thesis by (simp add: isspace_def needs_rest_def)
  qed
  with v show ?thesis by (simp add: verb_table_def)
next
  case (Mkdir p)
  with assms have v: "v = ''mkdir''" by simp
  from dispatch_Mkdir [OF Mkdir] shape_rest [of line "''mkdir''"]
  have "matches_verb (first_token line) ''mkdir'' \<and> branch_shape line ''mkdir''"
    by (simp add: isspace_def takes_rest_def)
  with v show ?thesis by (simp add: verb_table_def)
next
  case (Rm p)
  with assms have v: "v = ''rm''" by simp
  from dispatch_Rm [OF Rm] shape_rest [of line "''rm''"]
  have "matches_verb (first_token line) ''rm'' \<and> branch_shape line ''rm''"
    by (simp add: isspace_def takes_rest_def)
  with v show ?thesis by (simp add: verb_table_def)
next
  case (Cp c)
  with assms have v: "v = ''cp''" by simp
  from dispatch_Cp [OF Cp] shape_rest [of line "''cp''"]
  have "matches_verb (first_token line) ''cp'' \<and> branch_shape line ''cp''"
    by (simp add: isspace_def takes_rest_def)
  with v show ?thesis by (simp add: verb_table_def)
next
  case (Mv c)
  with assms have v: "v = ''mv''" by simp
  from dispatch_Mv [OF Mv] shape_rest [of line "''mv''"]
  have "matches_verb (first_token line) ''mv'' \<and> branch_shape line ''mv''"
    by (simp add: isspace_def takes_rest_def)
  with v show ?thesis by (simp add: verb_table_def)
next
  case Clear
  with assms have v: "v = ''clear''" by simp
  from dispatch_Clear [OF Clear] shape_alone [of "''clear''"]
  have "matches_verb (first_token line) ''clear'' \<and> branch_shape line ''clear''"
    by (simp add: isspace_def needs_rest_def)
  with v show ?thesis by (simp add: verb_table_def)
next
  case History
  with assms have v: "v = ''history''" by simp
  from dispatch_History [OF History] shape_alone [of "''history''"]
  have "matches_verb (first_token line) ''history'' \<and> branch_shape line ''history''"
    by (simp add: isspace_def needs_rest_def)
  with v show ?thesis by (simp add: verb_table_def)
next
  case Ps
  with assms have v: "v = ''ps''" by simp
  from dispatch_Ps [OF Ps] shape_alone [of "''ps''"]
  have "matches_verb (first_token line) ''ps'' \<and> branch_shape line ''ps''"
    by (simp add: isspace_def needs_rest_def)
  with v show ?thesis by (simp add: verb_table_def)
next
  case Top
  with assms have v: "v = ''top''" by simp
  from dispatch_Top [OF Top] shape_alone [of "''top''"]
  have "matches_verb (first_token line) ''top'' \<and> branch_shape line ''top''"
    by (simp add: isspace_def needs_rest_def)
  with v show ?thesis by (simp add: verb_table_def)
next
  case (External c)
  with assms show ?thesis by simp
qed

lemma rest_case:
  assumes "v \<in> set takes_rest"
  shows "verb_of (dispatch (v @ '' '' @ r)) = Some v"
proof -
  have "verb_of (dispatch (''cd'' @ '' '' @ r)) = Some ''cd''" by (simp add: dispatch_eval)
  moreover have "verb_of (dispatch (''ls'' @ '' '' @ r)) = Some ''ls''" by (simp add: dispatch_eval)
  moreover have "verb_of (dispatch (''mkdir'' @ '' '' @ r)) = Some ''mkdir''" by (simp add: dispatch_eval)
  moreover have "verb_of (dispatch (''rm'' @ '' '' @ r)) = Some ''rm''" by (simp add: dispatch_eval)
  moreover have "verb_of (dispatch (''cp'' @ '' '' @ r)) = Some ''cp''" by (simp add: dispatch_eval)
  moreover have "verb_of (dispatch (''mv'' @ '' '' @ r)) = Some ''mv''" by (simp add: dispatch_eval)
  moreover from assms have "v = ''cd'' \<or> v = ''ls'' \<or> v = ''mkdir'' \<or> v = ''rm'' \<or> v = ''cp'' \<or> v = ''mv''"
    by (simp add: takes_rest_def)
  ultimately show ?thesis by blast
qed

lemma alone_case:
  assumes "v \<in> set verb_table" and "v \<notin> set needs_rest" and "v \<noteq> ''exit''" and "v \<noteq> ''help''"
  shows "verb_of (dispatch v) = Some v"
proof -
  have "verb_of (dispatch ''cd'') = Some ''cd''" by (simp add: dispatch_eval)
  moreover have "verb_of (dispatch ''pwd'') = Some ''pwd''" by (simp add: dispatch_eval)
  moreover have "verb_of (dispatch ''ls'') = Some ''ls''" by (simp add: dispatch_eval)
  moreover have "verb_of (dispatch ''clear'') = Some ''clear''" by (simp add: dispatch_eval)
  moreover have "verb_of (dispatch ''history'') = Some ''history''" by (simp add: dispatch_eval)
  moreover have "verb_of (dispatch ''ps'') = Some ''ps''" by (simp add: dispatch_eval)
  moreover have "verb_of (dispatch ''top'') = Some ''top''" by (simp add: dispatch_eval)
  moreover from assms
  have "v = ''cd'' \<or> v = ''pwd'' \<or> v = ''ls'' \<or> v = ''clear'' \<or> v = ''history'' \<or> v = ''ps'' \<or> v = ''top''"
    by (simp add: verb_table_def needs_rest_def)
  ultimately show ?thesis by blast
qed

lemma shape_then_selected:
  assumes "v \<in> set verb_table" and "matches_verb (first_token line) v" and "branch_shape line v"
  shows "verb_of (dispatch line) = Some v"
proof -
  from assms(3)
  have d: "line = first_token line \<and> v \<notin> set needs_rest \<or>
           startswith line (v @ '' '') \<and> v \<in> set takes_rest"
    unfolding branch_shape_def .
  show ?thesis
  proof (rule disjE [OF d])
    assume a: "line = first_token line \<and> v \<notin> set needs_rest"
    from a have ft: "first_token line = line" by (rule conjunct1 [THEN sym])
    from a have nr: "v \<notin> set needs_rest" by (rule conjunct2)
    from assms(2) have m: "matches_verb line v"
      unfolding ft .
    show ?thesis
    proof (cases "v = ''exit'' \<or> v = ''help''")
      case True
      with m have l: "lower line = v" by (simp add: matches_verb_def)
      from True show ?thesis
      proof
        assume "v = ''exit''"
        with l show ?thesis by (simp add: dispatch_def)
      next
        assume "v = ''help''"
        with l show ?thesis by (simp add: dispatch_def)
      qed
    next
      case False
      with m have "line = v" by (simp add: matches_verb_def)
      with False nr assms(1) show ?thesis by (simp add: alone_case)
    qed
  next
    assume b: "startswith line (v @ '' '') \<and> v \<in> set takes_rest"
    then obtain r where r: "line = (v @ '' '') @ r"
      unfolding startswith_iff by (elim conjE exE)
    from b have "v \<in> set takes_rest" by (rule conjunct2)
    from rest_case [OF this, of r] r show ?thesis by simp
  qed
qed

text \<open>
  C2, as stated, fails: a line whose first token is a verb is not always given to that
  built-in. The line \<^verbatim>\<open>exit now\<close> has the first token \<^verbatim>\<open>exit\<close> and goes to the external
  command executor.
\<close>

theorem first_token_match_counterexample:
  "matches_verb (first_token ''exit now'') ''exit'' \<and>
   dispatch ''exit now'' = External ''exit now''"
  by (simp add: matches_verb_def first_token_def isspace_def dispatch_def lower_def
      lower_char_def startswith_def)

lemma shapes_agree:
  assumes "line \<notin> set needs_rest" and "matches_verb (first_token line) v"
  shows "line_shape line v \<longleftrightarrow> branch_shape line v"
proof
  assume "branch_shape line v"
  then show "line_shape line v"
    by (auto simp: branch_shape_def line_shape_def)
next
  assume s: "line_shape line v"
  show "branch_shape line v"
  proof (cases "v \<in> set needs_rest")
    case False
    with s show ?thesis by (auto simp: branch_shape_def line_shape_def)
  next
    case True
    then have "v \<noteq> ''exit''" and "v \<noteq> ''help''"
      by (auto simp: needs_rest_def)
    with assms(2) have t: "first_token line = v"
      by (simp add: matches_verb_def)
    from s consider "line = first_token line" | "startswith line (v @ '' '') \<and> v \<in> set takes_rest"
      by (auto simp: line_shape_def)
    then show ?thesis
    proof cases
      case 1
      with t have "line = v" by simp
      with True assms(1) show ?thesis by simp
    next
      case 2
      then show ?thesis by (simp add: branch_shape_def)
    qed
  qed
qed

lemma external_iff: "dispatch line = External line \<longleftrightarrow> verb_of (dispatch line) = None"
proof
  assume "dispatch line = External line"
  then show "verb_of (dispatch line) = None" by simp
next
  assume n: "verb_of (dispatch line) = None"
  then obtain c where c: "dispatch line = External c"
    by (cases "dispatch line") simp_all
  from dispatch_External [OF c] c show "dispatch line = External line" by simp
qed

lemma submit_runs:
  assumes "strip text \<noteq> []"
  shows "submit h text s =
           run h (dispatch (strip text))
             (append_out
                (s\<lparr>input_field := [],
                   command_history := command_history s @ [strip text],
                   history_index := int (length (command_history s @ [strip text]))\<rparr>)
                (''$ '' @ strip text))"
  using assms by (simp add: submit_def execute_command_def Let_def)

text \<open>
  C2, amended. The line that the dispatcher sees is the input stripped of white space at
  both ends, and the dispatcher compares the whole line. For every such line other than
  a bare \<^verbatim>\<open>mkdir\<close>, \<^verbatim>\<open>rm\<close>, \<^verbatim>\<open>cp\<close> or \<^verbatim>\<open>mv\<close>: the built-in of the verb \<open>v\<close> is
  selected exactly when the first token of the line matches \<open>v\<close> (regardless of case
  only for \<^verbatim>\<open>exit\<close> and \<^verbatim>\<open>help\<close>) and the line is that token alone, or \<open>v\<close> is one of
  \<^verbatim>\<open>cd\<close>, \<^verbatim>\<open>ls\<close>, \<^verbatim>\<open>mkdir\<close>, \<^verbatim>\<open>rm\<close>, \<^verbatim>\<open>cp\<close>, \<^verbatim>\<open>mv\<close> and a space character
  follows it. Every other line, and so every line whose first token matches no verb, goes
  to the external command executor, unchanged.
\<close>

theorem dispatch_by_whole_line:
  assumes "line \<notin> set needs_rest"
  shows "(verb_of (dispatch line) = Some v \<longleftrightarrow>
            v \<in> set verb_table \<and> matches_verb (first_token line) v \<and> line_shape line v) \<and>
         (dispatch line = External line \<longleftrightarrow>
            \<not> list_ex (\<lambda>v. matches_verb (first_token line) v \<and> line_shape line v) verb_table) \<and>
         (\<not> builtin_token (first_token line) \<longrightarrow> dispatch line = External line) \<and>
         (strip text = line \<and> line \<noteq> [] \<longrightarrow>
            submit h text s =
              run h (dispatch line)
                (append_out
                   (s\<lparr>input_field := [],
                      command_history := command_history s @ [line],
                      history_index := int (length (command_history s @ [line]))\<rparr>)
                   (''$ '' @ line)))"
proof (intro conjI impI)
  have sel: "verb_of (dispatch line) = Some w \<longleftrightarrow>
      w \<in> set verb_table \<and> matches_verb (first_token line) w \<and> line_shape line w" for w
  proof
    assume "verb_of (dispatch line) = Some w"
    from selected_then_shape [OF this] shapes_agree [OF assms, of w]
    show "w \<in> set verb_table \<and> matches_verb (first_token line) w \<and> line_shape line w"
      by blast
  next
    assume a: "w \<in> set verb_table \<and> matches_verb (first_token line) w \<and> line_shape line w"
    with shapes_agree [OF assms, of w]
    have "w \<in> set verb_table \<and> matches_verb (first_token line) w \<and> branch_shape line w"
      by blast
    then show "verb_of (dispatch line) = Some w"
      using shape_then_selected by blast
  qed
  show "verb_of (dispatch line) = Some v \<longleftrightarrow>
      v \<in> set verb_table \<and> matches_verb (first_token line) v \<and> line_shape line v"
    by (rule sel)
  have "dispatch line = External line \<longleftrightarrow> (\<forall>w. verb_of (dispatch line) \<noteq> Some w)"
    unfolding external_iff by auto
  also have "\<dots> \<longleftrightarrow> \<not> (\<exists>w\<in>set verb_table. matches_verb (first_token line) w \<and> line_shape line w)"
    unfolding sel by blast
  finally show ext: "dispatch line = External line \<longleftrightarrow>
      \<not> list_ex (\<lambda>v. matches_verb (first_token line) v \<and> line_shape line v) verb_table"
    by (simp add: list_ex_iff)
  assume "\<not> builtin_token (first_token line)"
  then have "\<not> (\<exists>w\<in>set verb_table. matches_verb (first_token line) w)"
    by (simp add: builtin_token_def list_ex_iff)
  then have "\<not> list_ex (\<lambda>v. matches_verb (first_token line) v \<and> line_shape line v) verb_table"
    by (auto simp: list_ex_iff)
  with ext show "dispatch line = External line" by blast
next
  assume a: "strip text = line \<and> line \<noteq> []"
  then have "strip text \<noteq> []" by simp
  from submit_runs [OF this, of h s] a
  show "submit h text s =
              run h (dispatch line)
                (append_out
                   (s\<lparr>input_field := [],
                      command_history := command_history s @ [line],
                      history_index := int (length (command_history s @ [line]))\<rparr>)
                   (''$ '' @ line))"
    by simp
qed

theorem dispatch_by_whole_line_witness:
  "verb_of (dispatch ''ls -l'') = Some ''ls'' \<and>
   verb_of (dispatch ''EXIT'') = Some ''exit'' \<and>
   dispatch ''exit now'' = External ''exit now'' \<and>
   dispatch ''make all'' = External ''make all'' \<and>
   submit demo_host ''  pwd  '' demo_start =
     run demo_host (dispatch ''pwd'')
       (append_out
          (demo_start\<lparr>input_field := [],
             command_history := command_history demo_start @ [''pwd''],
             history_index := int (length (command_history demo_start @ [''pwd'']))\<rparr>)
          (''$ '' @ ''pwd''))"
proof -
  have n: "''ls -l'' \<notin> set needs_rest" "''EXIT'' \<notin> set needs_rest"
    "''exit now'' \<notin> set needs_rest" "''make all'' \<notin> set needs_rest" "''pwd'' \<notin> set needs_rest"
    by (simp_all add: needs_rest_def)
  have a: "''ls'' \<in> set verb_table \<and> matches_verb (first_token ''ls -l'') ''ls'' \<and>
           line_shape ''ls -l'' ''ls''"
    by (simp add: verb_table_def matches_verb_def first_token_def isspace_def line_shape_def
        startswith_def takes_rest_def)
  have lo: "lower ''EXIT'' = ''exit''"
    by code_simp
  have b: "''exit'' \<in> set verb_table \<and> matches_verb (first_token ''EXIT'') ''exit'' \<and>
           line_shape ''EXIT'' ''exit''"
    by (simp add: verb_table_def matches_verb_def first_token_def isspace_def line_shape_def lo)
  have c: "\<not> list_ex (\<lambda>v. matches_verb (first_token ''exit now'') v \<and> line_shape ''exit now'' v)
             verb_table"
    by (simp add: verb_table_def matches_verb_def first_token_def isspace_def line_shape_def
        startswith_def takes_rest_def lower_def lower_char_def)
  have d: "\<not> builtin_token (first_token ''make all'')"
    by (simp add: builtin_token_def verb_table_def matches_verb_def first_token_def isspace_def
        lower_def lower_char_def)
  have e: "strip ''  pwd  '' = ''pwd'' \<and> ''pwd'' \<noteq> []"
    by (simp add: strip_def isspace_def)
  from a dispatch_by_whole_line [OF n(1), of "''ls''"]
  have 1: "verb_of (dispatch ''ls -l'') = Some ''ls''" by blast
  from b dispatch_by_whole_line [OF n(2), of "''exit''"]
  have 2: "verb_of (dispatch ''EXIT'') = Some ''exit''" by blast
  from c dispatch_by_whole_line [OF n(3)]
  have 3: "dispatch ''exit now'' = External ''exit now''" by blast
  from d dispatch_by_whole_line [OF n(4)]
  have 4: "dispatch ''make all'' = External ''make all''" by blast
  from e dispatch_by_whole_line [OF n(5), of _ "''  pwd  ''" demo_host demo_start]
  have 5: "submit demo_host ''  pwd  '' demo_start =
     run demo_host (dispatch ''pwd'')
       (append_out
          (demo_start\<lparr>input_field := [],
             command_history := command_history demo_start @ [''pwd''],
             history_index := int (length (command_history demo_start @ [''pwd'']))\<rparr>)
          (''$ '' @ ''pwd''))" by blast
  from 1 2 3 4 5 show ?thesis by blast
qed

section \<open>C3: the external command executor\<close>

lemma system_command_result:
  assumes "popen h (disk s) command (current_dir s) = Inr (out, err, fs)"
  shows "execute_system_command h s command =
           s\<lparr>output_area := output_area s @ stream_blocks out err, disk := fs\<rparr>"
  using assms
  by (simp add: execute_system_command_def Let_def stream_blocks_def append_out_def)

text \<open>
  C3: a line that the dispatcher delegates is passed on unchanged and spawned with the
  working directory \<open>current_dir\<close> of the session: the result is determined by what the
  host answers for that directory, and no other answer of the host is read. When the
  subprocess returns \<open>(out, err)\<close>, the output gains the block \<open>out\<close> if it is not empty,
  then the error block \<^verbatim>\<open>Error: \<close>\<open>err\<close> if \<open>err\<close> is not empty: both when both are not
  empty, the output block first.
\<close>

theorem external_result_blocks:
  assumes "dispatch line = External c"
    and "popen h (disk s) line (current_dir s) = Inr (out, err, fs)"
  shows "output_area (run h (dispatch line) s) =
           output_area s @ (if out \<noteq> [] then [out] else []) @
             (if err \<noteq> [] then [''Error: '' @ err] else []) \<and>
         current_dir (run h (dispatch line) s) = current_dir s \<and>
         (f (disk s) line (current_dir s) = popen h (disk s) line (current_dir s) \<longrightarrow>
            run (h\<lparr>popen := f\<rparr>) (dispatch line) s = run h (dispatch line) s)"
proof -
  from assms(1) have c: "c = line" by (rule dispatch_External)
  have r: "\<And>g. run g (dispatch line) s = execute_system_command g s line"
    unfolding assms(1) c by simp
  show ?thesis
    unfolding r
  proof (intro conjI impI)
    from system_command_result [OF assms(2)]
    show "output_area (execute_system_command h s line) =
           output_area s @ (if out \<noteq> [] then [out] else []) @
             (if err \<noteq> [] then [''Error: '' @ err] else [])"
      and "current_dir (execute_system_command h s line) = current_dir s"
      by (simp_all add: stream_blocks_def)
  next
    assume "f (disk s) line (current_dir s) = popen h (disk s) line (current_dir s)"
    then show "execute_system_command (h\<lparr>popen := f\<rparr>) s line = execute_system_command h s line"
      by (simp add: execute_system_command_def)
  qed
qed

theorem external_result_blocks_witness:
  "output_area (run demo_host (dispatch ''make all'') demo_start) =
     output_area demo_start @ [''out'', ''Error: warn''] \<and>
   current_dir (run demo_host (dispatch ''make all'') demo_start) = current_dir demo_start"
proof -
  have d: "dispatch ''make all'' = External ''make all''"
    by (simp add: dispatch_def startswith_def lower_def lower_char_def)
  have p: "popen demo_host (disk demo_start) ''make all'' (current_dir demo_start) =
             Inr (''out'', ''warn'', demo_disk)"
    by (simp add: demo_host_def demo_start_def)
  from external_result_blocks [OF d p, of "popen demo_host"] show ?thesis
    by simp
qed

section \<open>C4: mkdir\<close>

lemma mkdir_argument: "dispatch (strip t) = Mkdir p \<Longrightarrow> p \<noteq> []"
proof
  assume d: "dispatch (strip t) = Mkdir p" and p: "p = []"
  from dispatch_Mkdir [OF d] obtain r where r: "strip t = ''mkdir '' @ r" and "p = drop 6 (strip t)"
    by (auto simp: startswith_iff)
  with p have "r = []" by simp
  with r have "strip t = ''mkdir'' @ '' ''" by simp
  with strip_no_trailing_space show False by blast
qed

lemma rm_argument: "dispatch (strip t) = Rm p \<Longrightarrow> p \<noteq> []"
proof
  assume d: "dispatch (strip t) = Rm p" and p: "p = []"
  from dispatch_Rm [OF d] obtain r where r: "strip t = ''rm '' @ r" and "p = drop 3 (strip t)"
    by (auto simp: startswith_iff)
  with p have "r = []" by simp
  with r have "strip t = ''rm'' @ '' ''" by simp
  with strip_no_trailing_space show False by blast
qed

lemma strip_mkdir: "strip ''mkdir'' = ''mkdir'' \<and> strip ''mkdir   '' = ''mkdir''"
  by (simp add: strip_def isspace_def)

lemma submit_mkdir:
  "output_area (submit demo_host ''mkdir   '' demo_start) =
     output_area demo_start @ [''$ mkdir'', ''out'', ''Error: warn'']"
proof -
  have d: "dispatch ''mkdir'' = External ''mkdir''" by (simp add: dispatch_eval)
  show ?thesis
    by (simp add: submit_def execute_command_def Let_def strip_mkdir d execute_system_command_def
        demo_host_def append_out_def)
qed

text \<open>
  C4: \<^verbatim>\<open>mkdir\<close> with no path should fail with the error of the missing argument. The
  function has that guard, but the dispatcher never reaches it: the line is stripped, so
  it cannot end in the space that the branch \<^verbatim>\<open>startswith("mkdir ")\<close> asks for, and the
  bare \<^verbatim>\<open>mkdir\<close> goes to the external command executor.
\<close>

theorem mkdir_without_path:
  "dispatch (strip text) \<noteq> Mkdir [] \<and>
   strip ''mkdir   '' = ''mkdir'' \<and>
   dispatch ''mkdir'' = External ''mkdir'' \<and>
   output_area (submit demo_host ''mkdir   '' demo_start) =
     output_area demo_start @ [''$ mkdir'', ''out'', ''Error: warn''] \<and>
   make_directory h s [] = append_out s ''Error: mkdir requires a directory name''"
proof (intro conjI)
  show "dispatch (strip text) \<noteq> Mkdir []"
    using mkdir_argument by blast
  show "strip ''mkdir   '' = ''mkdir''" by (simp add: strip_mkdir)
  show "dispatch ''mkdir'' = External ''mkdir''" by (simp add: dispatch_eval)
  show "output_area (submit demo_host ''mkdir   '' demo_start) =
     output_area demo_start @ [''$ mkdir'', ''out'', ''Error: warn'']"
    by (rule submit_mkdir)
  show "make_directory h s [] = append_out s ''Error: mkdir requires a directory name''"
    by (simp add: make_directory_def)
qed

text \<open>
  The rest of C4 holds. \<^verbatim>\<open>mkdir\<close> with a path: when it reports the directory as
  created, the full path is a directory afterwards (and so is every directory on the
  way); when the path already is a directory, the file system is unchanged and the same
  success is reported; no directory is lost.
\<close>

lemma get_snoc:
  "get n (cur @ [c]) =
     (case get n cur of
        Some (Dir m es) \<Rightarrow> if x_ok m then map_of es c else None
      | _ \<Rightarrow> None)"
proof (induction cur arbitrary: n)
  case Nil
  show ?case by (simp split: node.splits option.splits)
next
  case (Cons d cur)
  show ?case by (simp add: Cons.IH split: node.splits option.splits)
qed

lemma map_of_upd:
  "map_of (upd c v es) d = (if d = c then map_option (\<lambda>w. v) (map_of es c) else map_of es d)"
  by (induction es) auto

lemma map_of_snoc:
  "map_of es d = Some ch \<Longrightarrow> map_of (es @ [(c, new)]) d = Some ch"
  by (simp add: map_add_Some_iff)

lemma isdir_iff:
  "isdir fs cwd p \<longleftrightarrow>
     p \<noteq> [] \<and> (\<exists>loc m es. walk fs p [] (components cwd p) = Inr loc \<and> get fs loc = Some (Dir m es))"
  by (auto simp: isdir_def os_stat_def split: sum.splits option.splits node.splits)

lemma put_keeps_dirs:
  "get n q = Some (Dir m es) \<Longrightarrow> get n q' = None \<Longrightarrow>
     \<exists>es'. get (put n q' new) q = Some (Dir m es')"
proof (induction q' arbitrary: n q es)
  case Nil
  then show ?case by simp
next
  case (Cons c cs)
  show ?case
  proof (cases n)
    case (Dir m0 es0)
    show ?thesis
    proof (cases q)
      case Nil
      with Cons.prems(1) Dir show ?thesis
        by (simp split: option.splits)
    next
      case q: (Cons d q2)
      from Cons.prems(1) Dir q obtain ch where
        x: "x_ok m0" and ch: "map_of es0 d = Some ch" and g: "get ch q2 = Some (Dir m es)"
        by (auto split: if_splits option.splits)
      show ?thesis
      proof (cases "map_of es0 c")
        case None
        with Dir q x ch g show ?thesis
          by (simp add: map_of_snoc)
      next
        case (Some ch0)
        show ?thesis
        proof (cases "d = c")
          case True
          with ch Some have same: "ch0 = ch" by simp
          from Cons.prems(2) Dir x Some have "get ch0 cs = None" by simp
          with same have "get ch cs = None" by simp
          from Cons.IH [OF g this] obtain es' where
            "get (put ch cs new) q2 = Some (Dir m es')" by blast
          with Dir q x Some same True show ?thesis
            by (simp add: map_of_upd)
        next
          case False
          with Dir q x ch g Some show ?thesis
            by (simp add: map_of_upd)
        qed
      qed
    qed
  next
    case (File m0)
    with Cons.prems(1) show ?thesis by simp
  next
    case (Special m0)
    with Cons.prems(1) show ?thesis by simp
  next
    case Broken
    with Cons.prems(1) show ?thesis by simp
  qed
qed

lemma mkdirs_keeps_dirs:
  "mkdirs fresh p fs cur cs = (r, fs') \<Longrightarrow> get fs q = Some (Dir m es) \<Longrightarrow>
     \<exists>es'. get fs' q = Some (Dir m es')"
proof (induction cs arbitrary: fs cur es)
  case Nil
  then show ?case by (auto split: option.splits node.splits)
next
  case (Cons c cs)
  show ?case
  proof (cases "get fs cur")
    case None
    with Cons.prems show ?thesis by auto
  next
    case (Some n)
    show ?thesis
    proof (cases n)
      case (Dir m0 es0)
      note here = Some [unfolded Dir]
      show ?thesis
      proof (cases "x_ok m0")
        case False
        with Cons.prems here show ?thesis by auto
      next
        case x: True
        consider (skip) "c = [] \<or> c = ''.''" | (up) "c = ''..''"
          | (name) "c \<noteq> []" "c \<noteq> ''.''" "c \<noteq> ''..''"
          by blast
        then show ?thesis
        proof cases
          case skip
          with Cons.prems(1) here x have "mkdirs fresh p fs cur cs = (r, fs')" by auto
          from Cons.IH [OF this Cons.prems(2)] show ?thesis .
        next
          case up
          with Cons.prems(1) here x have "mkdirs fresh p fs (butlast cur) cs = (r, fs')" by auto
          from Cons.IH [OF this Cons.prems(2)] show ?thesis .
        next
          case name
          show ?thesis
          proof (cases "map_of es0 c")
            case (Some ch)
            with name Cons.prems(1) here x
            have "mkdirs fresh p fs (cur @ [c]) cs = (r, fs')" by auto
            from Cons.IH [OF this Cons.prems(2)] show ?thesis .
          next
            case None
            show ?thesis
            proof (cases "w_ok m0")
              case False
              with None name Cons.prems here x show ?thesis by auto
            next
              case True
              with None name Cons.prems(1) here x
              have rec: "mkdirs fresh p (put fs (cur @ [c]) (Dir fresh [])) (cur @ [c]) cs = (r, fs')"
                by auto
              from here x None have "get fs (cur @ [c]) = None"
                by (simp add: get_snoc)
              from put_keeps_dirs [OF Cons.prems(2) this] obtain es1 where
                "get (put fs (cur @ [c]) (Dir fresh [])) q = Some (Dir m es1)" by blast
              from Cons.IH [OF rec this] show ?thesis .
            qed
          qed
        qed
      qed
    next
      case (File m0)
      with Cons.prems Some show ?thesis by auto
    next
      case (Special m0)
      with Cons.prems Some show ?thesis by auto
    next
      case Broken
      with Cons.prems Some show ?thesis by auto
    qed
  qed
qed

lemma mkdirs_walk:
  "mkdirs fresh p fs cur cs = (None, fs') \<Longrightarrow>
     \<exists>loc m es. walk fs' p cur cs = Inr loc \<and> get fs' loc = Some (Dir m es)"
proof (induction cs arbitrary: fs cur)
  case Nil
  then show ?case by (auto split: option.splits node.splits)
next
  case (Cons c cs)
  from Cons.prems obtain m0 es0 where here: "get fs cur = Some (Dir m0 es0)" and x: "x_ok m0"
    by (auto split: option.splits node.splits if_splits)
  from mkdirs_keeps_dirs [OF Cons.prems here] obtain es1 where
    after: "get fs' cur = Some (Dir m0 es1)" by blast
  consider (skip) "c = [] \<or> c = ''.''" | (up) "c = ''..''"
    | (name) "c \<noteq> []" "c \<noteq> ''.''" "c \<noteq> ''..''"
    by blast
  then show ?case
  proof cases
    case skip
    with Cons.prems here x have "mkdirs fresh p fs cur cs = (None, fs')" by auto
    from Cons.IH [OF this] skip after x show ?thesis by auto
  next
    case up
    with Cons.prems here x have "mkdirs fresh p fs (butlast cur) cs = (None, fs')" by auto
    from Cons.IH [OF this] up after x show ?thesis by auto
  next
    case name
    have "\<exists>fs1. mkdirs fresh p fs1 (cur @ [c]) cs = (None, fs')"
    proof (cases "map_of es0 c")
      case (Some ch)
      with name Cons.prems here x show ?thesis by auto
    next
      case None
      with name Cons.prems here x show ?thesis by (auto split: if_splits)
    qed
    then obtain fs1 where "mkdirs fresh p fs1 (cur @ [c]) cs = (None, fs')" by blast
    from Cons.IH [OF this] name after x show ?thesis by auto
  qed
qed

lemma walk_start:
  "walk fs p cur cs = Inr loc \<Longrightarrow> get fs loc = Some n \<Longrightarrow> \<exists>n0. get fs cur = Some n0"
  by (cases cs) (auto split: option.splits node.splits)

lemma walk_mkdirs:
  "walk fs p cur cs = Inr loc \<Longrightarrow> get fs loc = Some (Dir m es) \<Longrightarrow>
     mkdirs fresh p fs cur cs = (None, fs)"
proof (induction cs arbitrary: cur)
  case Nil
  then show ?case by simp
next
  case (Cons c cs)
  from Cons.prems(1) obtain m0 es0 where here: "get fs cur = Some (Dir m0 es0)" and x: "x_ok m0"
    by (auto split: option.splits node.splits if_splits)
  consider (skip) "c = [] \<or> c = ''.''" | (up) "c = ''..''"
    | (name) "c \<noteq> []" "c \<noteq> ''.''" "c \<noteq> ''..''"
    by blast
  then show ?case
  proof cases
    case skip
    with Cons.prems(1) here x have "walk fs p cur cs = Inr loc" by auto
    from Cons.IH [OF this Cons.prems(2)] skip here x show ?thesis by auto
  next
    case up
    with Cons.prems(1) here x have "walk fs p (butlast cur) cs = Inr loc" by auto
    from Cons.IH [OF this Cons.prems(2)] up here x show ?thesis by auto
  next
    case name
    with Cons.prems(1) here x have w: "walk fs p (cur @ [c]) cs = Inr loc" by auto
    from walk_start [OF w Cons.prems(2)] obtain n0 where "get fs (cur @ [c]) = Some n0" by blast
    with here x have "map_of es0 c = Some n0" by (simp add: get_snoc)
    with Cons.IH [OF w Cons.prems(2)] name here x show ?thesis by auto
  qed
qed

lemma makedirs_creates:
  "makedirs fresh fs cwd p = (None, fs') \<Longrightarrow> isdir fs' cwd p"
  unfolding isdir_iff makedirs_def
  by (cases "p = []") (auto dest: mkdirs_walk)

lemma makedirs_existing:
  "isdir fs cwd p \<Longrightarrow> makedirs fresh fs cwd p = (None, fs)"
  unfolding isdir_iff makedirs_def
  by (auto simp: walk_mkdirs)

lemma walk_kept:
  assumes "\<And>q m es. get fs q = Some (Dir m es) \<Longrightarrow> \<exists>es'. get fs' q = Some (Dir m es')"
  shows "walk fs p cur cs = Inr loc \<Longrightarrow> walk fs' p cur cs = Inr loc"
proof (induction cs arbitrary: cur)
  case Nil
  then show ?case by simp
next
  case (Cons c cs)
  from Cons.prems obtain m0 es0 where here: "get fs cur = Some (Dir m0 es0)" and x: "x_ok m0"
    by (auto split: option.splits node.splits if_splits)
  from assms [OF here] obtain es1 where after: "get fs' cur = Some (Dir m0 es1)" by blast
  from Cons.prems here x after Cons.IH show ?case
    by (auto split: if_splits)
qed

lemma makedirs_keeps_directories:
  assumes "makedirs fresh fs cwd p = (r, fs')" and "isdir fs cwd q"
  shows "isdir fs' cwd q"
proof -
  have keep: "\<And>q m es. get fs q = Some (Dir m es) \<Longrightarrow> \<exists>es'. get fs' q = Some (Dir m es')"
  proof (cases "p = []")
    case True
    fix q m es assume "get fs q = Some (Dir m es)"
    with True assms(1) show "\<exists>es'. get fs' q = Some (Dir m es')"
      by (simp add: makedirs_def)
  next
    case False
    fix q m es assume g: "get fs q = Some (Dir m es)"
    from False assms(1) have "mkdirs fresh p fs [] (components cwd p) = (r, fs')"
      by (simp add: makedirs_def)
    from mkdirs_keeps_dirs [OF this g] show "\<exists>es'. get fs' q = Some (Dir m es')" .
  qed
  from assms(2) obtain loc m es where q: "q \<noteq> []"
    and w: "walk fs q [] (components cwd q) = Inr loc" and g: "get fs loc = Some (Dir m es)"
    by (auto simp: isdir_iff)
  from walk_kept [of fs fs', OF keep w] keep [OF g] q show ?thesis
    by (auto simp: isdir_iff)
qed

lemma make_directory_creates:
  assumes "path \<noteq> []"
    and "output_area (make_directory h s path) = output_area s @ [''Created directory: '' @ path]"
  shows "isdir (disk (make_directory h s path)) (getcwd h) (path_join (current_dir s) path)"
proof -
  obtain r fs where m: "makedirs (fresh_dir h) (disk s) (getcwd h) (path_join (current_dir s) path) = (r, fs)"
    by (cases "makedirs (fresh_dir h) (disk s) (getcwd h) (path_join (current_dir s) path)") blast
  show ?thesis
  proof (cases r)
    case None
    with m assms(1) have "disk (make_directory h s path) = fs"
      by (simp add: make_directory_def append_out_def)
    with makedirs_creates [OF m [unfolded None]] show ?thesis by simp
  next
    case (Some e)
    with m assms(1) have "output_area (make_directory h s path) = output_area s @ [''Error: '' @ str_exn e]"
      by (simp add: make_directory_def report_def append_out_def)
    with assms(2) show ?thesis by simp
  qed
qed

lemma make_directory_again:
  assumes "path \<noteq> []"
    and "isdir (disk s) (getcwd h) (path_join (current_dir s) path)"
  shows "make_directory h s path = append_out s (''Created directory: '' @ path)"
  using assms(1) makedirs_existing [OF assms(2), of "fresh_dir h"]
  by (simp add: make_directory_def)

text \<open>
  The example of the specification: \<^verbatim>\<open>mkdir a/b/c\<close>, then \<^verbatim>\<open>ls a/b\<close> shows \<^verbatim>\<open>c/\<close>, and
  a second \<^verbatim>\<open>mkdir a/b/c\<close> succeeds and changes nothing.
\<close>

lemma demo_makedirs:
  "makedirs (plain 4096) demo_disk ''/home/user'' ''/home/user/a/b/c'' = (None, demo_disk_abc)"
  by (simp add: makedirs_def components_def isabs_def startswith_def demo_disk_def
      demo_disk_abc_def plain_def)

lemma demo_makedirs_again:
  "makedirs (plain 4096) demo_disk_abc ''/home/user'' ''/home/user/a/b/c'' = (None, demo_disk_abc)"
  by (simp add: makedirs_def components_def isabs_def startswith_def demo_disk_abc_def plain_def)

lemma demo_mkdir:
  "submit demo_host ''mkdir a/b/c'' demo_start =
     demo_start\<lparr>command_history := [''mkdir a/b/c''], history_index := 1,
       output_area := output_area demo_start @ [''$ mkdir a/b/c'', ''Created directory: a/b/c''],
       disk := demo_disk_abc\<rparr>"
proof -
  have s: "strip ''mkdir a/b/c'' = ''mkdir a/b/c''" by (simp add: strip_def isspace_def)
  have d: "dispatch ''mkdir a/b/c'' = Mkdir ''a/b/c''" by (simp add: dispatch_eval)
  have j: "path_join ''/home/user'' ''a/b/c'' = ''/home/user/a/b/c''"
    by (simp add: path_join_def startswith_def endswith_def)
  show ?thesis
    by (simp add: submit_def execute_command_def Let_def s d make_directory_def demo_start_def
        demo_host_def j demo_makedirs append_out_def)
qed

lemma demo_ls_ab:
  "output_area (submit demo_host ''ls a/b'' (submit demo_host ''mkdir a/b/c'' demo_start)) =
     output_area demo_start @
       [''$ mkdir a/b/c'', ''Created directory: a/b/c'', ''$ ls a/b'', ''c/ '']"
proof -
  have s: "strip ''ls a/b'' = ''ls a/b''" by (simp add: strip_def isspace_def)
  have d: "dispatch ''ls a/b'' = Ls ''ls a/b''" by (simp add: dispatch_eval)
  have t: "shlex_split ''ls a/b'' = Inr [''ls'', ''a/b'']" by (simp add: shlex_eval)
  have a: "ls_args ''/home/user'' [''ls'', ''a/b''] = (False, False, ''/home/user/a/b'')"
    by (simp add: ls_args_def path_join_def startswith_def endswith_def)
  have e: "exists_path demo_disk_abc ''/home/user'' ''/home/user/a/b'' \<and>
           \<not> isfile demo_disk_abc ''/home/user'' ''/home/user/a/b''"
    by (simp add: exists_path_def isfile_def os_stat_def components_def isabs_def startswith_def
        demo_disk_abc_def plain_def)
  have l: "listdir demo_disk_abc ''/home/user'' ''/home/user/a/b'' = Inr [''c'']"
    by (simp add: listdir_def os_stat_def components_def isabs_def startswith_def
        demo_disk_abc_def plain_def)
  have r: "short_rows demo_disk_abc ''/home/user'' ''/home/user/a/b'' [''c''] = [''c/ '']"
    by (simp add: short_rows_def short_dirs_def short_files_def column_width_def isdir_def
        isfile_def os_stat_def components_def isabs_def startswith_def path_join_def endswith_def
        demo_disk_abc_def plain_def text_eval)
  show ?thesis
    unfolding demo_mkdir
    by (simp add: submit_def execute_command_def Let_def s d list_files_def t demo_start_def
        demo_host_def a e l visible_def startswith_def r append_out_def)
qed

lemma demo_mkdir_again:
  "output_area (submit demo_host ''mkdir a/b/c'' (submit demo_host ''mkdir a/b/c'' demo_start)) =
     output_area demo_start @
       [''$ mkdir a/b/c'', ''Created directory: a/b/c'', ''$ mkdir a/b/c'',
        ''Created directory: a/b/c''] \<and>
   disk (submit demo_host ''mkdir a/b/c'' (submit demo_host ''mkdir a/b/c'' demo_start)) =
     disk (submit demo_host ''mkdir a/b/c'' demo_start)"
proof -
  have s: "strip ''mkdir a/b/c'' = ''mkdir a/b/c''" by (simp add: strip_def isspace_def)
  have d: "dispatch ''mkdir a/b/c'' = Mkdir ''a/b/c''" by (simp add: dispatch_eval)
  have j: "path_join ''/home/user'' ''a/b/c'' = ''/home/user/a/b/c''"
    by (simp add: path_join_def startswith_def endswith_def)
  show ?thesis
    unfolding demo_mkdir
    by (simp add: submit_def execute_command_def Let_def s d make_directory_def demo_start_def
        demo_host_def j demo_makedirs_again append_out_def)
qed

section \<open>C5: where the arguments of a built-in come from\<close>


























section \<open>C6: the columns of the short listing\<close>

lemma pack_concat:
  "pack per_line i cells (line, out) = (line', out') \<Longrightarrow>
     concat out' @ line' = concat out @ line @ concat cells"
  by (induction cells arbitrary: i line out) (auto split: if_splits)

lemma two_packs:
  "concat (case pack n 0 cs1 ([], []) of
             (l1, o1) \<Rightarrow>
               (case pack n 0 cs2 (l1, o1) of
                  (l2, o2) \<Rightarrow> o2 @ (if l2 \<noteq> [] then [l2] else []))) =
   concat cs1 @ concat cs2"
proof -
  obtain l1 o1 where p1: "pack n 0 cs1 ([], []) = (l1, o1)"
    by (cases "pack n 0 cs1 ([], [])") blast
  obtain l2 o2 where p2: "pack n 0 cs2 (l1, o1) = (l2, o2)"
    by (cases "pack n 0 cs2 (l1, o1)") blast
  from pack_concat [OF p1] have a: "concat o1 @ l1 = concat cs1" by simp
  from pack_concat [OF p2] have "concat o2 @ l2 = (concat o1 @ l1) @ concat cs2" by simp
  then have b: "concat o2 @ l2 = concat cs1 @ concat cs2" unfolding a .
  have "concat (o2 @ (if l2 \<noteq> [] then [l2] else [])) = concat o2 @ l2" by simp
  then show ?thesis unfolding b by (simp only: p1 p2 prod.case)
qed

text \<open>
  The rows of the short listing, read one after the other, are the cells: the directories
  first, each with a slash after its name, then the files.
\<close>

lemma rows_hold_cells:
  "concat (short_rows fs cwd path files) = concat (short_cells fs cwd path files)"
  unfolding short_rows_def short_cells_def Let_def two_packs by simp

lemma length_le_longest: "x \<in> set xs \<Longrightarrow> length x \<le> foldr max (map length xs) 0"
  by (induction xs) auto

lemma length_ljust: "length s \<le> w \<Longrightarrow> length (ljust w s) = w"
  by (simp add: ljust_def)

text \<open>
  Every cell is as wide as the column: the longest listed name plus 2.
\<close>

lemma cells_width:
  assumes "cell \<in> set (short_cells fs cwd path files)"
  shows "length cell = column_width (short_files fs cwd path files @ short_dirs fs cwd path files)"
proof -
  let ?w = "column_width (short_files fs cwd path files @ short_dirs fs cwd path files)"
  from assms consider
      d where "d \<in> set (short_dirs fs cwd path files)" "cell = ljust ?w (d @ ''/'')"
    | f where "f \<in> set (short_files fs cwd path files)" "cell = ljust ?w f"
    by (auto simp: short_cells_def Let_def)
  then show ?thesis
  proof cases
    case 1
    from 1(1) have "length d \<le> foldr max (map length (short_files fs cwd path files @ short_dirs fs cwd path files)) 0"
      by (intro length_le_longest) simp
    then have "length (d @ ''/'') \<le> ?w" by (simp add: column_width_def)
    with 1(2) show ?thesis by (simp only: length_ljust)
  next
    case 2
    from 2(1) have "length f \<le> foldr max (map length (short_files fs cwd path files @ short_dirs fs cwd path files)) 0"
      by (intro length_le_longest) simp
    then have "length f \<le> ?w" by (simp add: column_width_def)
    with 2(2) show ?thesis by (simp only: length_ljust)
  qed
qed

lemma wide_names: "listdir wide_disk ''/home/user'' ''/w'' =
   Inr [''quarterly_financial_report_2023_v1.pdf'', ''old'', ''quarterly_financial_report_2023_v2.pdf'']"
  by (simp add: wide_eval)

lemma wide_dirs: "short_dirs wide_disk ''/home/user'' ''/w''
     [''quarterly_financial_report_2023_v1.pdf'', ''old'', ''quarterly_financial_report_2023_v2.pdf''] = [''old'']"
  by (simp add: short_dirs_def wide_eval)

lemma wide_files: "short_files wide_disk ''/home/user'' ''/w''
     [''quarterly_financial_report_2023_v1.pdf'', ''old'', ''quarterly_financial_report_2023_v2.pdf''] =
     [''quarterly_financial_report_2023_v1.pdf'', ''quarterly_financial_report_2023_v2.pdf'']"
  by (simp add: short_files_def wide_eval)

lemma wide_column_width: "column_width [''quarterly_financial_report_2023_v1.pdf'', ''quarterly_financial_report_2023_v2.pdf'', ''old''] = 40"
  by (simp add: column_width_def)

lemma wide_rows: "short_rows wide_disk ''/home/user'' ''/w''
     [''quarterly_financial_report_2023_v1.pdf'', ''old'', ''quarterly_financial_report_2023_v2.pdf''] =
     [ljust 40 ''old/'' @ ljust 40 ''quarterly_financial_report_2023_v1.pdf'' @
        ljust 40 ''quarterly_financial_report_2023_v2.pdf'']"
  by (simp add: short_rows_def wide_dirs wide_files wide_column_width)

lemma wide_path: "exists_path wide_disk ''/home/user'' ''/w'' \<and> \<not> isfile wide_disk ''/home/user'' ''/w''"
  by (simp add: wide_eval)

lemma ls_plain: "dispatch ''ls'' = Ls ''ls'' \<and> shlex_split ''ls'' = Inr [''ls'']"
  by (simp add: dispatch_eval shlex_eval)

lemma wide_fields: "current_dir wide_session = ''/w'' \<and> disk wide_session = wide_disk \<and>
    getcwd demo_host = ''/home/user''"
  by (simp add: wide_session_def demo_host_def)

lemma wide_ls:
  "output_area (run demo_host (dispatch ''ls'') wide_session) =
     output_area wide_session @
       [ljust 40 ''old/'' @ ljust 40 ''quarterly_financial_report_2023_v1.pdf'' @
        ljust 40 ''quarterly_financial_report_2023_v2.pdf'']"
  by (simp add: ls_plain list_files_def ls_args_def wide_fields wide_path wide_names visible_def startswith_def wide_rows append_out_def)

lemma wide_row_length:
  "length (ljust 40 ''old/'' @ ljust 40 ''quarterly_financial_report_2023_v1.pdf'' @
        ljust 40 ''quarterly_financial_report_2023_v2.pdf'') = 120"
  by (simp add: ljust_def)

text \<open>
  C6: a row of the short listing should hold at most \<open>max(1, 80 div width)\<close> entries. The
  code breaks this: the second loop starts its count at 0 again while the line still
  holds the directories of an unfinished row. With one directory and two files whose
  names are 38 characters long the width is 40, two entries fit a row, and the only row
  printed holds three entries and is 120 characters long.
\<close>

theorem short_row_overflow:
  "output_area (run demo_host (dispatch ''ls'') wide_session) =
     output_area wide_session @
       [ljust 40 ''old/'' @ ljust 40 ''quarterly_financial_report_2023_v1.pdf'' @
        ljust 40 ''quarterly_financial_report_2023_v2.pdf''] \<and>
   length (ljust 40 ''old/'' @ ljust 40 ''quarterly_financial_report_2023_v1.pdf'' @
        ljust 40 ''quarterly_financial_report_2023_v2.pdf'') = 120 \<and>
   column_width [''quarterly_financial_report_2023_v1.pdf'',
     ''quarterly_financial_report_2023_v2.pdf'', ''old''] = 40 \<and>
   max 1 (80 div (40::nat)) = 2"
  using wide_ls wide_row_length wide_column_width by simp

section \<open>C7: ps\<close>

text \<open>
  The sort keeps the processes and puts them in descending order of the key, \<^verbatim>\<open>None\<close>
  counting as 0. When the first ten all have a CPU share, \<^verbatim>\<open>ps\<close> prints the header and
  one line for each of them.
\<close>

lemma sort_by_cpu_set: "set (sort_by_cpu ps) = set ps"
  by (simp add: sort_by_cpu_def)

lemma sort_by_cpu_length: "length (sort_by_cpu ps) = length ps"
  by (simp add: sort_by_cpu_def)

lemma sort_by_cpu_descending: "sorted (rev (map cpu_key (sort_by_cpu ps)))"
  by (simp add: sort_by_cpu_def rev_map [symmetric])

lemma ps_rows_all:
  assumes "list_all (\<lambda>p. cpu_percent p \<noteq> None) ps"
  shows "output_area (ps_rows h ps s) = output_area s @ map (\<lambda>p. projr (ps_line h p)) ps"
  using assms
proof (induction ps arbitrary: s)
  case Nil
  show ?case by simp
next
  case (Cons p ps)
  from Cons.prems obtain c where c: "cpu_percent p = Some c" by auto
  from Cons.prems have "list_all (\<lambda>p. cpu_percent p \<noteq> None) ps" by simp
  from Cons.IH [OF this] show ?case
    by (simp add: ps_line_def c append_out_def)
qed

lemma show_processes_ok:
  assumes "process_iter h = Inr ps"
    and "list_all (\<lambda>p. cpu_percent p \<noteq> None) (take 10 (sort_by_cpu ps))"
  shows "output_area (show_processes h s) =
           output_area s @ ps_header # map (\<lambda>p. projr (ps_line h p)) (take 10 (sort_by_cpu ps))"
  using ps_rows_all [OF assms(2)]
  by (simp add: show_processes_def assms(1) append_out_def)

lemma demo_sorted:
  "sort_by_cpu demo_procs =
     [\<lparr>pid = 42, name = Some ''python'', username = Some ''user'', cpu_percent = Some 5,
       memory_info = Some 52428800\<rparr>,
      \<lparr>pid = 1, name = Some ''init'', username = Some ''root'', cpu_percent = None,
       memory_info = Some 1048576\<rparr>]"
  by (simp add: sort_by_cpu_def demo_procs_def cpu_key_def)

lemma demo_ps_line:
  "ps_line ps_host \<lparr>pid = 42, name = Some ''python'', username = Some ''user'', cpu_percent = Some 5,
       memory_info = Some 52428800\<rparr> =
   Inr (''42'' @ tab @ ''python'' @ tab @ ''user'' @ tab @ ''5.0'' @ tab @ ''50.0MB'')"
  by (simp add: ps_line_def ps_host_def demo_host_def one_decimal_5 one_decimal_50 mem_mb_def
      str_opt_def text_eval)

lemma demo_ps_line_none:
  "ps_line ps_host \<lparr>pid = 1, name = Some ''init'', username = Some ''root'', cpu_percent = None,
       memory_info = Some 1048576\<rparr> =
   Inl (TypeError ''unsupported format string passed to NoneType.__format__'')"
  by (simp add: ps_line_def)

text \<open>
  C7: \<^verbatim>\<open>ps\<close> should print the header and the first ten processes, a missing CPU share
  counting as 0. The sort does treat \<^verbatim>\<open>None\<close> as 0, but the line of a process formats the
  share with \<^verbatim>\<open>:.1f\<close>, which raises for \<^verbatim>\<open>None\<close>: the listing stops at the first such
  process among the ten with an error line.
\<close>

theorem ps_none_cpu:
  "process_iter ps_host = Inr demo_procs \<and>
   output_area (run ps_host (dispatch ''ps'') demo_start) =
     output_area demo_start @
       [ps_header,
        ''42'' @ tab @ ''python'' @ tab @ ''user'' @ tab @ ''5.0'' @ tab @ ''50.0MB'',
        ''Error: unsupported format string passed to NoneType.__format__'']"
proof
  show p: "process_iter ps_host = Inr demo_procs"
    by (simp add: ps_host_def)
  have d: "dispatch ''ps'' = Ps" by (simp add: dispatch_eval)
  show "output_area (run ps_host (dispatch ''ps'') demo_start) =
     output_area demo_start @
       [ps_header,
        ''42'' @ tab @ ''python'' @ tab @ ''user'' @ tab @ ''5.0'' @ tab @ ''50.0MB'',
        ''Error: unsupported format string passed to NoneType.__format__'']"
    unfolding d
    by (simp add: show_processes_def p demo_sorted demo_ps_line demo_ps_line_none report_def append_out_def)
qed

section \<open>C8: hidden entries\<close>

text \<open>
  The rows of the short listing, read one after the other, are the columns of the
  entries shown.
\<close>

lemma shown_code: "shown fs cwd path names = short_dirs fs cwd path names @ short_files fs cwd path names"
  by (simp add: shown_def short_dirs_def short_files_def)

lemma longest_append:
  "foldr max (map length (a @ b)) (0::nat) =
     max (foldr max (map length a) 0) (foldr max (map length b) 0)"
  by (induction a) auto

lemma longest_swap:
  "foldr max (map length (a @ b)) (0::nat) = foldr max (map length (b @ a)) 0"
  unfolding longest_append by (rule max.commute)

lemma not_both: "isfile fs cwd p \<Longrightarrow> \<not> isdir fs cwd p"
  by (auto simp: isfile_def isdir_def split: sum.splits node.splits)

lemma rows_hold_columns:
  "concat (short_rows fs cwd path names) = columns fs cwd path names"
proof -
  let ?d = "short_dirs fs cwd path names" and ?f = "short_files fs cwd path names"
  have w: "column_width (?f @ ?d) = foldr max (map length (shown fs cwd path names)) 0 + 2"
    unfolding column_width_def shown_code longest_swap [of "short_files fs cwd path names"] ..
  have d: "map (\<lambda>f. ljust w (if isdir fs cwd (path_join path f) then f @ ''/'' else f)) ?d =
           map (\<lambda>d. ljust w (d @ ''/'')) ?d" for w
    by (simp add: short_dirs_def)
  have f: "map (\<lambda>f. ljust w (if isdir fs cwd (path_join path f) then f @ ''/'' else f)) ?f =
           map (ljust w) ?f" for w
    by (simp add: short_files_def not_both)
  show ?thesis
    unfolding rows_hold_cells short_cells_def columns_def Let_def w [symmetric]
    by (simp add: shown_code d f)
qed

lemmas tidy_eval = tidy_session_def demo_start_def demo_host_def tidy_disk_def plain_def
  exists_path_def isfile_def isdir_def os_stat_def os_access_def components_def isabs_def
  startswith_def path_join_def endswith_def listdir_def

lemmas dot_eval = dot_session_def demo_start_def demo_host_def dot_disk_def plain_def
  exists_path_def isfile_def isdir_def os_stat_def os_access_def components_def isabs_def
  startswith_def path_join_def endswith_def listdir_def

lemma shown_hidden:
  assumes "\<forall>f\<in>set names. hidden f \<longrightarrow> isdir fs cwd (path_join path f) \<or> isfile fs cwd (path_join path f)"
  shows "set (shown fs cwd path names) - set (shown fs cwd path (filter (\<lambda>f. \<not> hidden f) names)) =
           {f \<in> set names. hidden f}"
  using assms by (auto simp: shown_def)

lemma shown_subset:
  "set (shown fs cwd path (filter (\<lambda>f. \<not> hidden f) names)) \<subseteq> set (shown fs cwd path names)"
  by (auto simp: shown_def)

lemma shown_length:
  "length (shown fs cwd path (filter (\<lambda>f. \<not> hidden f) names)) \<le> length (shown fs cwd path names)"
proof -
  have "length (filter P (filter Q xs)) \<le> length (filter P xs)" for P Q and xs :: "string list"
    by (induction xs) auto
  then show ?thesis
    unfolding shown_def length_append by (intro add_mono)
qed

lemma dot_names:
  "listdir (disk dot_session) (getcwd demo_host) (current_dir dot_session) =
     Inr [''.broken'', ''.cfg'', ''notes'', ''visible'']"
  by (simp add: dot_eval)

lemma dot_short_all:
  "short_rows (disk dot_session) (getcwd demo_host) (current_dir dot_session)
     [''.broken'', ''.cfg'', ''notes'', ''visible''] = [''notes/   .cfg     visible  '']"
proof -
  have d: "short_dirs (disk dot_session) (getcwd demo_host) (current_dir dot_session)
     [''.broken'', ''.cfg'', ''notes'', ''visible''] = [''notes'']"
    by (simp add: short_dirs_def dot_eval)
  have f: "short_files (disk dot_session) (getcwd demo_host) (current_dir dot_session)
     [''.broken'', ''.cfg'', ''notes'', ''visible''] = [''.cfg'', ''visible'']"
    by (simp add: short_files_def dot_eval)
  have w: "column_width [''.cfg'', ''visible'', ''notes''] = 9"
    by (simp add: column_width_def)
  show ?thesis
    by (simp add: short_rows_def d f w text_eval)
qed

lemma dot_short_some:
  "short_rows (disk dot_session) (getcwd demo_host) (current_dir dot_session)
     [''notes'', ''visible''] = [''notes/   visible  '']"
proof -
  have d: "short_dirs (disk dot_session) (getcwd demo_host) (current_dir dot_session)
     [''notes'', ''visible''] = [''notes'']"
    by (simp add: short_dirs_def dot_eval)
  have f: "short_files (disk dot_session) (getcwd demo_host) (current_dir dot_session)
     [''notes'', ''visible''] = [''visible'']"
    by (simp add: short_files_def dot_eval)
  have w: "column_width [''visible'', ''notes''] = 9"
    by (simp add: column_width_def)
  show ?thesis
    by (simp add: short_rows_def d f w text_eval)
qed

lemma dot_visible:
  "filter (\<lambda>f. \<not> hidden f) [''.broken'', ''.cfg'', ''notes'', ''visible''] = [''notes'', ''visible'']"
  by (simp add: hidden_def)

lemma dot_line_broken:
  "long_line demo_host (disk dot_session) (path_join (current_dir dot_session) ''.broken'') ''.broken'' =
     Inl (FileNotFoundError ''/d/.broken'')"
  by (simp add: long_line_def dot_eval)

lemma dot_line_notes:
  "long_line demo_host (disk dot_session) (path_join (current_dir dot_session) ''notes'') ''notes'' =
     Inr ''drwx     4096 1970-01-01 00:00 notes''"
  by (simp add: long_line_def dot_eval utc_epoch text_eval)

lemma dot_line_visible:
  "long_line demo_host (disk dot_session) (path_join (current_dir dot_session) ''visible'') ''visible'' =
     Inr ''-rwx      340 1970-01-01 00:00 visible''"
  by (simp add: long_line_def dot_eval utc_epoch text_eval)

text \<open>
  C8, as stated, fails when a hidden entry is neither a file nor a directory. The
  directory \<^verbatim>\<open>/d\<close> holds the hidden broken link \<^verbatim>\<open>.broken\<close>, the hidden file \<^verbatim>\<open>.cfg\<close>,
  the directory \<^verbatim>\<open>notes\<close> and the file \<^verbatim>\<open>visible\<close>. In the short format \<^verbatim>\<open>ls -a\<close>
  lists \<^verbatim>\<open>.cfg\<close> more than \<^verbatim>\<open>ls\<close>, not \<^verbatim>\<open>.broken\<close>: the difference is not the
  hidden entries of the directory. In the long format \<^verbatim>\<open>ls -la\<close> prints an error and
  no entry, while \<^verbatim>\<open>ls -l\<close> lists two: no superset.
\<close>

theorem hidden_entries_counterexample:
  "listdir (disk dot_session) (getcwd demo_host) (current_dir dot_session) =
     Inr [''.broken'', ''.cfg'', ''notes'', ''visible''] \<and>
   output_area (run demo_host (dispatch ''ls -a'') dot_session) =
     output_area dot_session @ [''notes/   .cfg     visible  ''] \<and>
   output_area (run demo_host (dispatch ''ls'') dot_session) =
     output_area dot_session @ [''notes/   visible  ''] \<and>
   output_area (run demo_host (dispatch ''ls -la'') dot_session) =
     output_area dot_session @ [''Error: '' @ str_exn (FileNotFoundError ''/d/.broken'')] \<and>
   output_area (run demo_host (dispatch ''ls -l'') dot_session) =
     output_area dot_session @
       [''drwx     4096 1970-01-01 00:00 notes'', ''-rwx      340 1970-01-01 00:00 visible'']"
proof (intro conjI)
  show "listdir (disk dot_session) (getcwd demo_host) (current_dir dot_session) =
     Inr [''.broken'', ''.cfg'', ''notes'', ''visible'']"
    by (rule dot_names)
  from ls_here(2) [OF dot_names]
  show "output_area (run demo_host (dispatch ''ls -a'') dot_session) =
     output_area dot_session @ [''notes/   .cfg     visible  '']"
    unfolding dot_short_all .
  from ls_here(1) [OF dot_names]
  show "output_area (run demo_host (dispatch ''ls'') dot_session) =
     output_area dot_session @ [''notes/   visible  '']"
    unfolding dot_visible dot_short_some .
  have a: "long_rows demo_host (disk dot_session) (current_dir dot_session)
             [''.broken'', ''.cfg'', ''notes'', ''visible''] =
           ([], Some (FileNotFoundError ''/d/.broken''))"
    by (simp add: dot_line_broken)
  from ls_long_here(2) [OF dot_names]
  show "output_area (run demo_host (dispatch ''ls -la'') dot_session) =
     output_area dot_session @ [''Error: '' @ str_exn (FileNotFoundError ''/d/.broken'')]"
    unfolding a by simp
  have b: "long_rows demo_host (disk dot_session) (current_dir dot_session) [''notes'', ''visible''] =
           ([''drwx     4096 1970-01-01 00:00 notes'', ''-rwx      340 1970-01-01 00:00 visible''],
            None)"
    by (simp add: dot_line_notes dot_line_visible)
  from ls_long_here(1) [OF dot_names]
  show "output_area (run demo_host (dispatch ''ls -l'') dot_session) =
     output_area dot_session @
       [''drwx     4096 1970-01-01 00:00 notes'', ''-rwx      340 1970-01-01 00:00 visible'']"
    unfolding dot_visible b by simp
qed

text \<open>
  C8, amended. Let the directory D of the session be listed by the host as \<open>names\<close>.
  In the short format, \<^verbatim>\<open>ls -a\<close> prints the columns of the names that are files or
  directories, and \<^verbatim>\<open>ls\<close> prints the columns of those among them that are not hidden:
  a subset and no more entries; when every hidden entry of D is a file or a directory,
  the difference is exactly the hidden entries of D. In the long format, when the line
  of every entry of D can be made, \<^verbatim>\<open>ls -la\<close> prints one line for each entry of D and
  \<^verbatim>\<open>ls -l\<close> one line for each entry that is not hidden, each line ending in the name.
\<close>

theorem ls_all_superset:
  assumes "listdir (disk s) (getcwd h) (current_dir s) = Inr names"
  shows "output_area (run h (dispatch ''ls -a'') s) =
           output_area s @ printed s (run h (dispatch ''ls -a'') s) \<and>
         concat (printed s (run h (dispatch ''ls -a'') s)) =
           columns (disk s) (getcwd h) (current_dir s) names \<and>
         output_area (run h (dispatch ''ls'') s) =
           output_area s @ printed s (run h (dispatch ''ls'') s) \<and>
         concat (printed s (run h (dispatch ''ls'') s)) =
           columns (disk s) (getcwd h) (current_dir s) (filter (\<lambda>f. \<not> hidden f) names) \<and>
         set (shown (disk s) (getcwd h) (current_dir s) (filter (\<lambda>f. \<not> hidden f) names)) \<subseteq>
           set (shown (disk s) (getcwd h) (current_dir s) names) \<and>
         length (shown (disk s) (getcwd h) (current_dir s) (filter (\<lambda>f. \<not> hidden f) names)) \<le>
           length (shown (disk s) (getcwd h) (current_dir s) names) \<and>
         ((\<forall>f\<in>set names. hidden f \<longrightarrow>
              isdir (disk s) (getcwd h) (path_join (current_dir s) f) \<or>
              isfile (disk s) (getcwd h) (path_join (current_dir s) f)) \<longrightarrow>
            set (shown (disk s) (getcwd h) (current_dir s) names) -
              set (shown (disk s) (getcwd h) (current_dir s) (filter (\<lambda>f. \<not> hidden f) names)) =
            {f \<in> set names. hidden f}) \<and>
         ((\<forall>f\<in>set names. \<exists>l. long_line h (disk s) (path_join (current_dir s) f) f = Inr l) \<longrightarrow>
            output_area (run h (dispatch ''ls -la'') s) =
              output_area s @
                map (\<lambda>f. projr (long_line h (disk s) (path_join (current_dir s) f) f)) names \<and>
            output_area (run h (dispatch ''ls -l'') s) =
              output_area s @
                map (\<lambda>f. projr (long_line h (disk s) (path_join (current_dir s) f) f))
                  (filter (\<lambda>f. \<not> hidden f) names) \<and>
            (\<forall>f\<in>set names. \<exists>body.
               projr (long_line h (disk s) (path_join (current_dir s) f) f) = body @ '' '' @ f))"
proof (intro conjI impI)
  note a = ls_here(2) [OF assms] and b = ls_here(1) [OF assms]
  from a show "output_area (run h (dispatch ''ls -a'') s) =
           output_area s @ printed s (run h (dispatch ''ls -a'') s)"
    by (simp add: printed_def)
  from a show "concat (printed s (run h (dispatch ''ls -a'') s)) =
           columns (disk s) (getcwd h) (current_dir s) names"
    by (simp add: printed_def rows_hold_columns)
  from b show "output_area (run h (dispatch ''ls'') s) =
           output_area s @ printed s (run h (dispatch ''ls'') s)"
    by (simp add: printed_def)
  from b show "concat (printed s (run h (dispatch ''ls'') s)) =
           columns (disk s) (getcwd h) (current_dir s) (filter (\<lambda>f. \<not> hidden f) names)"
    by (simp add: printed_def rows_hold_columns)
  show "set (shown (disk s) (getcwd h) (current_dir s) (filter (\<lambda>f. \<not> hidden f) names)) \<subseteq>
           set (shown (disk s) (getcwd h) (current_dir s) names)"
    by (rule shown_subset)
  show "length (shown (disk s) (getcwd h) (current_dir s) (filter (\<lambda>f. \<not> hidden f) names)) \<le>
           length (shown (disk s) (getcwd h) (current_dir s) names)"
    by (rule shown_length)
next
  assume "\<forall>f\<in>set names. hidden f \<longrightarrow>
              isdir (disk s) (getcwd h) (path_join (current_dir s) f) \<or>
              isfile (disk s) (getcwd h) (path_join (current_dir s) f)"
  then show "set (shown (disk s) (getcwd h) (current_dir s) names) -
              set (shown (disk s) (getcwd h) (current_dir s) (filter (\<lambda>f. \<not> hidden f) names)) =
            {f \<in> set names. hidden f}"
    by (rule shown_hidden)
next
  assume ok: "\<forall>f\<in>set names. \<exists>l. long_line h (disk s) (path_join (current_dir s) f) f = Inr l"
  then have ok': "\<forall>f\<in>set (filter (\<lambda>f. \<not> hidden f) names).
                    \<exists>l. long_line h (disk s) (path_join (current_dir s) f) f = Inr l"
    by simp
  from ls_long_here(2) [OF assms]
  show "output_area (run h (dispatch ''ls -la'') s) =
              output_area s @
                map (\<lambda>f. projr (long_line h (disk s) (path_join (current_dir s) f) f)) names"
    unfolding long_rows_all [OF ok] by simp
  from ls_long_here(1) [OF assms]
  show "output_area (run h (dispatch ''ls -l'') s) =
              output_area s @
                map (\<lambda>f. projr (long_line h (disk s) (path_join (current_dir s) f) f))
                  (filter (\<lambda>f. \<not> hidden f) names)"
    unfolding long_rows_all [OF ok'] by simp
  show "\<forall>f\<in>set names. \<exists>body.
               projr (long_line h (disk s) (path_join (current_dir s) f) f) = body @ '' '' @ f"
  proof
    fix f assume "f \<in> set names"
    with ok obtain l where l: "long_line h (disk s) (path_join (current_dir s) f) f = Inr l"
      by blast
    from long_line_name [OF l] obtain body where
      "l = (if isfile (disk s) (getcwd h) (path_join (current_dir s) f) then ''-'' else ''d'') @
           body @ '' '' @ f" by blast
    then have "l = ((if isfile (disk s) (getcwd h) (path_join (current_dir s) f) then ''-'' else ''d'') @
           body) @ '' '' @ f" by simp
    with l show "\<exists>body.
               projr (long_line h (disk s) (path_join (current_dir s) f) f) = body @ '' '' @ f"
      by (metis sum.sel(2))
  qed
qed

lemma tidy_names:
  "listdir (disk tidy_session) (getcwd demo_host) (current_dir tidy_session) =
     Inr [''.cfg'', ''notes'', ''visible'']"
  by (simp add: tidy_eval)

lemma tidy_visible:
  "filter (\<lambda>f. \<not> hidden f) [''.cfg'', ''notes'', ''visible''] = [''notes'', ''visible'']"
  by (simp add: hidden_def)

lemma tidy_shown_all:
  "shown (disk tidy_session) (getcwd demo_host) (current_dir tidy_session)
     [''.cfg'', ''notes'', ''visible''] = [''notes'', ''.cfg'', ''visible'']"
  by (simp add: shown_def tidy_eval)

lemma tidy_shown_some:
  "shown (disk tidy_session) (getcwd demo_host) (current_dir tidy_session)
     [''notes'', ''visible''] = [''notes'', ''visible'']"
  by (simp add: shown_def tidy_eval)

lemma tidy_kinds:
  "isdir (disk tidy_session) (getcwd demo_host) (path_join (current_dir tidy_session) ''notes'')"
  "\<not> isdir (disk tidy_session) (getcwd demo_host) (path_join (current_dir tidy_session) ''.cfg'')"
  "\<not> isdir (disk tidy_session) (getcwd demo_host) (path_join (current_dir tidy_session) ''visible'')"
  "isfile (disk tidy_session) (getcwd demo_host) (path_join (current_dir tidy_session) ''.cfg'')"
  by (simp_all add: tidy_eval)

lemma tidy_columns_all:
  "columns (disk tidy_session) (getcwd demo_host) (current_dir tidy_session)
     [''.cfg'', ''notes'', ''visible''] = ''notes/   .cfg     visible  ''"
  unfolding columns_def tidy_shown_all
  by (simp add: tidy_kinds text_eval)

lemma tidy_columns_some:
  "columns (disk tidy_session) (getcwd demo_host) (current_dir tidy_session)
     [''notes'', ''visible''] = ''notes/   visible  ''"
  unfolding columns_def tidy_shown_some
  by (simp add: tidy_kinds text_eval)

lemma tidy_line_cfg:
  "long_line demo_host (disk tidy_session) (path_join (current_dir tidy_session) ''.cfg'') ''.cfg'' =
     Inr ''-rwx       80 1970-01-01 00:00 .cfg''"
  by (simp add: long_line_def tidy_eval utc_epoch text_eval)

lemma tidy_line_notes:
  "long_line demo_host (disk tidy_session) (path_join (current_dir tidy_session) ''notes'') ''notes'' =
     Inr ''drwx     4096 1970-01-01 00:00 notes''"
  by (simp add: long_line_def tidy_eval utc_epoch text_eval)

lemma tidy_line_visible:
  "long_line demo_host (disk tidy_session) (path_join (current_dir tidy_session) ''visible'') ''visible'' =
     Inr ''-rwx      340 1970-01-01 00:00 visible''"
  by (simp add: long_line_def tidy_eval utc_epoch text_eval)

theorem ls_all_superset_witness:
  "concat (printed tidy_session (run demo_host (dispatch ''ls -a'') tidy_session)) =
     ''notes/   .cfg     visible  '' \<and>
   concat (printed tidy_session (run demo_host (dispatch ''ls'') tidy_session)) =
     ''notes/   visible  '' \<and>
   set [''notes'', ''.cfg'', ''visible''] - set [''notes'', ''visible''] = {''.cfg''} \<and>
   output_area (run demo_host (dispatch ''ls -la'') tidy_session) =
     output_area tidy_session @
       [''-rwx       80 1970-01-01 00:00 .cfg'', ''drwx     4096 1970-01-01 00:00 notes'',
        ''-rwx      340 1970-01-01 00:00 visible''] \<and>
   output_area (run demo_host (dispatch ''ls -l'') tidy_session) =
     output_area tidy_session @
       [''drwx     4096 1970-01-01 00:00 notes'', ''-rwx      340 1970-01-01 00:00 visible'']"
proof -
  have h: "\<forall>f\<in>set [''.cfg'', ''notes'', ''visible'']. hidden f \<longrightarrow>
             isdir (disk tidy_session) (getcwd demo_host) (path_join (current_dir tidy_session) f) \<or>
             isfile (disk tidy_session) (getcwd demo_host) (path_join (current_dir tidy_session) f)"
    by (simp add: tidy_kinds hidden_def)
  have l: "\<forall>f\<in>set [''.cfg'', ''notes'', ''visible''].
             \<exists>l. long_line demo_host (disk tidy_session) (path_join (current_dir tidy_session) f) f = Inr l"
    by (simp add: tidy_line_cfg tidy_line_notes tidy_line_visible)
  have d: "{f \<in> set [''.cfg'', ''notes'', ''visible'']. hidden f} = {''.cfg''}"
    by (auto simp: hidden_def)
  from ls_all_superset [OF tidy_names] h l
  show ?thesis
    unfolding tidy_visible tidy_columns_all tidy_columns_some tidy_shown_all tidy_shown_some d
    by (simp add: tidy_line_cfg tidy_line_notes tidy_line_visible)
qed

section \<open>C9: the history cursor\<close>

lemma recall_append_out: "recall (append_out s t) = recall s"
  by (simp add: recall_def append_out_def)

lemma recall_appends: "recall (foldl append_out s ts) = recall s"
  by (induction ts arbitrary: s) (simp_all add: recall_append_out)

lemma recall_report: "recall (report s e) = recall s"
  by (simp add: report_def recall_append_out)

lemma recall_disk: "recall (s\<lparr>disk := fs\<rparr>) = recall s"
  by (simp add: recall_def)

lemma recall_change_directory: "recall (change_directory h s p) = recall s"
  by (simp add: change_directory_def update_prompt_def Let_def recall_append_out recall_report
      split: sum.splits)
    (auto simp: recall_def)

lemma recall_list_files: "recall (list_files h s c) = recall s"
  by (simp add: list_files_def Let_def recall_append_out recall_report recall_appends
      split: sum.splits prod.splits option.splits)

lemma recall_make_directory: "recall (make_directory h s p) = recall s"
  by (simp add: make_directory_def Let_def recall_append_out recall_report recall_disk
      split: prod.splits option.splits)

lemma recall_remove: "recall (remove_file_or_dir h s p) = recall s"
  by (simp add: remove_file_or_dir_def Let_def recall_append_out recall_report recall_disk
      split: prod.splits option.splits)

lemma recall_copy: "recall (copy_file_or_dir h s c) = recall s"
  by (simp add: copy_file_or_dir_def Let_def recall_append_out recall_report recall_disk
      split: sum.splits list.splits prod.splits option.splits)

lemma recall_move: "recall (move_file_or_dir h s c) = recall s"
  by (simp add: move_file_or_dir_def Let_def recall_append_out recall_report recall_disk
      split: sum.splits list.splits prod.splits option.splits)

lemma recall_system: "recall (execute_system_command h s c) = recall s"
  by (simp add: execute_system_command_def Let_def recall_append_out recall_disk
      split: sum.splits prod.splits)

lemma recall_ps_rows: "recall (ps_rows h ps s) = recall s"
  by (induction ps arbitrary: s) (simp_all add: recall_append_out recall_report split: sum.splits)

lemma recall_processes: "recall (show_processes h s) = recall s"
  by (simp add: show_processes_def recall_ps_rows recall_append_out recall_report split: sum.splits)

lemma recall_stats: "recall (show_system_stats h s) = recall s"
  by (simp add: show_system_stats_def recall_appends recall_append_out split: sum.splits)

lemma recall_run: "recall (run h c s) = recall s"
  by (cases c)
    (simp_all add: recall_change_directory recall_list_files recall_make_directory recall_remove
      recall_copy recall_move recall_system recall_processes recall_stats recall_append_out
      show_help_def show_history_def recall_appends, simp_all add: recall_def)

lemma cursor_ok_recall: "recall s' = recall s \<Longrightarrow> cursor_ok s' = cursor_ok s"
  by (simp add: recall_def cursor_ok_def)

lemma execute_command_empty:
  "strip (input_field s) = [] \<Longrightarrow> recall (execute_command h s) = recall s"
  by (simp add: execute_command_def recall_def)

lemma execute_command_records:
  assumes "strip (input_field s) \<noteq> []"
  shows "recall (execute_command h s) =
         (command_history s @ [strip (input_field s)], int (length (command_history s)) + 1)"
  using assms
  by (simp add: execute_command_def Let_def recall_run recall_append_out, simp add: recall_def)

lemma execute_command_cursor: "cursor_ok s \<Longrightarrow> cursor_ok (execute_command h s)"
proof (cases "strip (input_field s) = []")
  case True
  assume ok: "cursor_ok s"
  from cursor_ok_recall [OF execute_command_empty [OF True, of h]] ok show ?thesis
    by simp
next
  case False
  from execute_command_records [OF False, of h] show ?thesis
    by (simp add: recall_def cursor_ok_def)
qed

lemma item_in_range: "0 \<le> i \<Longrightarrow> i < int (length xs) \<Longrightarrow> item xs i = Some (xs ! nat i)"
  by (simp add: item_def)

lemma key_cursor:
  assumes "cursor_ok s"
  shows "\<exists>s'. keyPressEvent k s = Some s' \<and> cursor_ok s' \<and>
              command_history s' = command_history s \<and>
              (0 \<le> history_index s \<or> k = Key_Down \<longrightarrow> 0 \<le> history_index s')"
proof (cases k)
  case Key_Up
  show ?thesis
  proof (cases "command_history s \<noteq> [] \<and> history_index s > 0")
    case True
    with assms have r: "0 \<le> history_index s - 1" "history_index s - 1 < int (length (command_history s))"
      by (auto simp: cursor_ok_def)
    from item_in_range [OF r] True Key_Up r show ?thesis
      by (simp add: cursor_ok_def)
  next
    case False
    with assms Key_Up show ?thesis by auto
  qed
next
  case Key_Down
  show ?thesis
  proof (cases "command_history s \<noteq> [] \<and> history_index s < int (length (command_history s)) - 1")
    case True
    with assms have r: "0 \<le> history_index s + 1" "history_index s + 1 < int (length (command_history s))"
      by (auto simp: cursor_ok_def)
    from item_in_range [OF r] True Key_Down r show ?thesis
      by (simp add: cursor_ok_def)
  next
    case False
    with Key_Down show ?thesis by (auto simp: cursor_ok_def)
  qed
next
  case Key_Other
  with assms show ?thesis by simp
qed

lemma reachable_cursor: "reachable s \<Longrightarrow> cursor_ok s"
proof (induction rule: reachable.induct)
  case (start h fs s)
  then show ?case by (auto simp: init_def cursor_ok_def split: sum.splits)
next
  case (edit s t)
  then show ?case by (simp add: cursor_ok_def)
next
  case (enter s h)
  from enter.IH show ?case by (rule execute_command_cursor)
next
  case (press s k s')
  with key_cursor [of s k] show ?case by auto
next
  case (tick s h)
  then show ?case by (auto simp: update_system_monitor_def cursor_ok_def split: sum.splits)
next
  case (world s fs)
  then show ?case by (simp add: cursor_ok_def)
qed

text \<open>
  C9, as stated, fails in the first state of every session: \<^verbatim>\<open>__init__\<close> sets
  \<^verbatim>\<open>history_index = -1\<close>, which is outside \<open>[0, len(history)] = [0, 0]\<close>.
\<close>

theorem initial_cursor_counterexample:
  "reachable demo_start \<and> history_index demo_start = - 1 \<and>
   \<not> (0 \<le> history_index demo_start \<and>
      history_index demo_start \<le> int (length (command_history demo_start)))"
  using demo_reachable by (simp add: demo_start_def)

text \<open>
  C9, amended: in every reachable state the cursor is \<open>-1\<close> with an empty history (the
  value \<^verbatim>\<open>__init__\<close> gives it, kept until a command is recorded or Down is pressed), or
  it lies in \<open>[0, len(history)]\<close>. Recording a non-empty command sets it to
  \<open>len(history)\<close>. A recall key never raises; Down always leaves the cursor in
  \<open>[0, len(history)]\<close>, and so does Up from a cursor that is in that range.
\<close>

theorem history_cursor_range:
  assumes "reachable s"
  shows "(history_index s = - 1 \<and> command_history s = [] \<or>
          0 \<le> history_index s \<and> history_index s \<le> int (length (command_history s))) \<and>
         (strip (input_field s) \<noteq> [] \<longrightarrow>
            history_index (execute_command h s) =
              int (length (command_history (execute_command h s)))) \<and>
         (\<exists>s'. keyPressEvent k s = Some s' \<and>
               (0 \<le> history_index s \<or> k = Key_Down \<longrightarrow>
                  0 \<le> history_index s' \<and>
                  history_index s' \<le> int (length (command_history s'))))"
proof (intro conjI impI)
  from assms have ok: "cursor_ok s" by (rule reachable_cursor)
  then show "history_index s = - 1 \<and> command_history s = [] \<or>
      0 \<le> history_index s \<and> history_index s \<le> int (length (command_history s))"
    by (simp add: cursor_ok_def)
  from key_cursor [OF ok, of k] obtain s' where
    s': "keyPressEvent k s = Some s'" "cursor_ok s'"
      "0 \<le> history_index s \<or> k = Key_Down \<longrightarrow> 0 \<le> history_index s'"
    by blast
  then show "\<exists>s'. keyPressEvent k s = Some s' \<and>
      (0 \<le> history_index s \<or> k = Key_Down \<longrightarrow>
         0 \<le> history_index s' \<and> history_index s' \<le> int (length (command_history s')))"
    by (auto simp: cursor_ok_def)
next
  assume "strip (input_field s) \<noteq> []"
  from execute_command_records [OF this, of h]
  show "history_index (execute_command h s) =
      int (length (command_history (execute_command h s)))"
    by (simp add: recall_def)
qed

theorem history_cursor_range_witness:
  "reachable (demo_start\<lparr>input_field := ''pwd''\<rparr>) \<and>
   history_index (execute_command demo_host (demo_start\<lparr>input_field := ''pwd''\<rparr>)) =
     int (length (command_history (execute_command demo_host (demo_start\<lparr>input_field := ''pwd''\<rparr>)))) \<and>
   (\<exists>s'. keyPressEvent Key_Down (demo_start\<lparr>input_field := ''pwd''\<rparr>) = Some s' \<and>
         0 \<le> history_index s' \<and> history_index s' \<le> int (length (command_history s')))"
proof -
  have r: "reachable (demo_start\<lparr>input_field := ''pwd''\<rparr>)"
    by (rule reachable.edit [OF demo_reachable])
  have ne: "strip (input_field (demo_start\<lparr>input_field := ''pwd''\<rparr>)) \<noteq> []"
    by (simp add: strip_def isspace_def)
  from history_cursor_range [OF r, of demo_host Key_Down] ne r show ?thesis
    by blast
qed

section \<open>C10: entries that are neither file nor directory\<close>

text \<open>
  The short format shows no entry that is neither a file nor a directory, whatever the
  names; the long format does show a FIFO, socket or device that \<^verbatim>\<open>os.stat\<close> reaches,
  with the letter \<^verbatim>\<open>d\<close>, when the listing gets that far.
\<close>

lemma neither_not_shown:
  assumes "\<not> isdir fs cwd (path_join path f)" and "\<not> isfile fs cwd (path_join path f)"
  shows "f \<notin> set (shown fs cwd path names)"
  using assms by (simp add: shown_def)

lemma special_long_line:
  assumes "os_stat fs (getcwd h) full = Inr (Special m)" and "strftime h (st_mtime m) = Inr t"
  shows "long_line h fs full f =
           Inr (''d'' @
                (if r_ok m then ''r'' else ''-'') @ (if w_ok m then ''w'' else ''-'') @
                (if x_ok m then ''x'' else ''-'') @
                '' '' @ rjust 8 (str_nat (st_size m)) @ '' '' @ t @ '' '' @ f)"
  using assms by (simp add: long_line_def isfile_def os_access_def)

lemma broken_long_line:
  assumes "\<not> exists_path fs (getcwd h) full"
  shows "\<exists>e. long_line h fs full f = Inl e \<and> os_stat fs (getcwd h) full = Inl e"
  using assms by (simp add: long_line_def exists_path_def split: sum.splits)

lemma demo_names:
  "listdir (disk demo_start) (getcwd demo_host) (current_dir demo_start) =
     Inr [''.hidden'', ''visible'', ''docs'', ''my dir'', ''broken'', ''pipe'']"
  by (simp add: demo_eval)

lemma demo_visible:
  "filter (\<lambda>f. \<not> hidden f) [''.hidden'', ''visible'', ''docs'', ''my dir'', ''broken'', ''pipe''] =
     [''visible'', ''docs'', ''my dir'', ''broken'', ''pipe'']"
  by (simp add: hidden_def)

lemma demo_short:
  "short_rows (disk demo_start) (getcwd demo_host) (current_dir demo_start)
     [''visible'', ''docs'', ''my dir'', ''broken'', ''pipe''] = [''docs/    my dir/  visible  '']"
proof -
  have d: "short_dirs (disk demo_start) (getcwd demo_host) (current_dir demo_start)
     [''visible'', ''docs'', ''my dir'', ''broken'', ''pipe''] = [''docs'', ''my dir'']"
    by (simp add: short_dirs_def demo_eval)
  have f: "short_files (disk demo_start) (getcwd demo_host) (current_dir demo_start)
     [''visible'', ''docs'', ''my dir'', ''broken'', ''pipe''] = [''visible'']"
    by (simp add: short_files_def demo_eval)
  have w: "column_width [''visible'', ''docs'', ''my dir''] = 9"
    by (simp add: column_width_def)
  show ?thesis
    by (simp add: short_rows_def d f w text_eval)
qed

lemma demo_line_visible:
  "long_line demo_host (disk demo_start) (path_join (current_dir demo_start) ''visible'') ''visible'' =
     Inr ''-rwx      340 1970-01-01 00:00 visible''"
  by (simp add: long_line_def demo_eval utc_epoch text_eval)

lemma demo_line_docs:
  "long_line demo_host (disk demo_start) (path_join (current_dir demo_start) ''docs'') ''docs'' =
     Inr ''drwx     4096 1970-01-01 00:00 docs''"
  by (simp add: long_line_def demo_eval utc_epoch text_eval)

lemma demo_line_my_dir:
  "long_line demo_host (disk demo_start) (path_join (current_dir demo_start) ''my dir'') ''my dir'' =
     Inr ''drwx     4096 1970-01-01 00:00 my dir''"
  by (simp add: long_line_def demo_eval utc_epoch text_eval)

lemma demo_line_broken:
  "long_line demo_host (disk demo_start) (path_join (current_dir demo_start) ''broken'') ''broken'' =
     Inl (FileNotFoundError ''/home/user/broken'')"
  by (simp add: long_line_def demo_eval)

lemma demo_line_pipe:
  "long_line demo_host (disk demo_start) (path_join (current_dir demo_start) ''pipe'') ''pipe'' =
     Inr ''drwx        0 1970-01-01 00:00 pipe''"
  by (simp add: long_line_def demo_eval utc_epoch text_eval)

lemma demo_long_rows:
  "long_rows demo_host (disk demo_start) (current_dir demo_start)
     [''visible'', ''docs'', ''my dir'', ''broken'', ''pipe''] =
   ([''-rwx      340 1970-01-01 00:00 visible'',
     ''drwx     4096 1970-01-01 00:00 docs'',
     ''drwx     4096 1970-01-01 00:00 my dir''],
    Some (FileNotFoundError ''/home/user/broken''))"
  by (simp add: demo_line_visible demo_line_docs demo_line_my_dir demo_line_broken)

text \<open>
  C10: an entry that is neither a file nor a directory is left out of the short listing
  and should appear in the long listing of the same directory. The code breaks the
  second half for a broken symbolic link. In \<^verbatim>\<open>/home/user\<close> the entries \<^verbatim>\<open>broken\<close>
  (a broken link) and \<^verbatim>\<open>pipe\<close> (a FIFO) are neither; \<^verbatim>\<open>ls\<close> leaves both out; \<^verbatim>\<open>ls -l\<close>
  prints the three entries before \<^verbatim>\<open>broken\<close>, then the error of \<^verbatim>\<open>os.stat\<close>, and stops:
  neither \<^verbatim>\<open>broken\<close> nor \<^verbatim>\<open>pipe\<close> appears.
\<close>

theorem long_listing_stops_at_broken_link:
  "listdir (disk demo_start) (getcwd demo_host) (current_dir demo_start) =
     Inr [''.hidden'', ''visible'', ''docs'', ''my dir'', ''broken'', ''pipe''] \<and>
   \<not> isdir (disk demo_start) (getcwd demo_host) (path_join (current_dir demo_start) ''broken'') \<and>
   \<not> isfile (disk demo_start) (getcwd demo_host) (path_join (current_dir demo_start) ''broken'') \<and>
   \<not> isdir (disk demo_start) (getcwd demo_host) (path_join (current_dir demo_start) ''pipe'') \<and>
   \<not> isfile (disk demo_start) (getcwd demo_host) (path_join (current_dir demo_start) ''pipe'') \<and>
   output_area (run demo_host (dispatch ''ls'') demo_start) =
     output_area demo_start @ [''docs/    my dir/  visible  ''] \<and>
   output_area (run demo_host (dispatch ''ls -l'') demo_start) =
     output_area demo_start @
       [''-rwx      340 1970-01-01 00:00 visible'',
        ''drwx     4096 1970-01-01 00:00 docs'',
        ''drwx     4096 1970-01-01 00:00 my dir'',
        ''Error: [Errno 2] No such file or directory: '' @ quoted ''/home/user/broken'']"
proof (intro conjI)
  show "listdir (disk demo_start) (getcwd demo_host) (current_dir demo_start) =
     Inr [''.hidden'', ''visible'', ''docs'', ''my dir'', ''broken'', ''pipe'']"
    by (rule demo_names)
  show "\<not> isdir (disk demo_start) (getcwd demo_host) (path_join (current_dir demo_start) ''broken'')"
    and "\<not> isfile (disk demo_start) (getcwd demo_host) (path_join (current_dir demo_start) ''broken'')"
    and "\<not> isdir (disk demo_start) (getcwd demo_host) (path_join (current_dir demo_start) ''pipe'')"
    and "\<not> isfile (disk demo_start) (getcwd demo_host) (path_join (current_dir demo_start) ''pipe'')"
    by (simp_all add: demo_eval)
  from ls_here(1) [OF demo_names]
  show "output_area (run demo_host (dispatch ''ls'') demo_start) =
     output_area demo_start @ [''docs/    my dir/  visible  '']"
    unfolding demo_visible demo_short .
  from ls_long_here(1) [OF demo_names]
  show "output_area (run demo_host (dispatch ''ls -l'') demo_start) =
     output_area demo_start @
       [''-rwx      340 1970-01-01 00:00 visible'',
        ''drwx     4096 1970-01-01 00:00 docs'',
        ''drwx     4096 1970-01-01 00:00 my dir'',
        ''Error: [Errno 2] No such file or directory: '' @ quoted ''/home/user/broken'']"
    unfolding demo_visible demo_long_rows by simp
qed

end
